theory Spec2Isabelle
  imports
    Main
    "HOL-Library.Word"
    "HOL-Library.Char_ord"
    "HOL-Library.List_Lexorder"
    "HOL-Library.Multiset"
begin

section \<open>The ticketing canister: data model\<close>

text \<open>
  The repository holds the canister twice: \<^verbatim>\<open>src/src/index.ts\<close> and the
  \<^verbatim>\<open>index.ts\<close> inside \<^verbatim>\<open>src/unnamed/part_000\<close>. Both are embedded. A
  function of \<^verbatim>\<open>src/src/index.ts\<close> keeps its name; the function of the same name
  in \<^verbatim>\<open>part_000\<close> carries the suffix \<open>_p0\<close>. The helper functions that only
  \<^verbatim>\<open>part_000\<close> declares (\<open>isStringEmpty\<close>, \<open>isUserExists\<close>, ...) keep their names.

  Candid types: \<open>text\<close> is a string, \<open>nat64\<close> a 64-bit word, \<open>nat32\<close> a 32-bit
  word, \<open>Opt\<close> an option. A \<open>Principal\<close> is identified with its textual form, so the
  source's \<open>a.toText() === b.toText()\<close> is equality of principals.
\<close>

type_synonym principal = string
type_synonym nat64 = "64 word"
type_synonym nat32 = "32 word"

text \<open>Record fields carry a prefix, since the four records of the source share field names.\<close>

record user =
  u_id :: principal
  u_name :: string
  u_role :: string
  u_createdAt :: nat64
  u_updatedAt :: nat64

record event =
  ev_id :: string
  ev_name :: string
  ev_date :: nat64
  ev_location :: string
  ev_organizerId :: principal
  ev_createdAt :: nat64
  ev_updatedAt :: nat64

record ticket =
  tk_id :: string
  tk_role :: string
  tk_price :: nat64
  tk_eventId :: string
  tk_participantId :: "principal option"
  tk_organizerId :: principal
  tk_createdAt :: nat64
  tk_updatedAt :: nat64

record transaction =
  tx_id :: string
  tx_mode :: string
  tx_pay :: nat64
  tx_ticketId :: string
  tx_senderId :: "principal option"
  tx_participantId :: principal
  tx_organizerId :: principal
  tx_createdAt :: nat64
  tx_updatedAt :: nat64

record userPayload =
  up_name :: string
  up_role :: string

record eventPayload =
  ep_name :: string
  ep_date :: nat64
  ep_location :: string

record ticketPayload =
  tp_role :: string
  tp_price :: nat64
  tp_eventId :: string

record transactionPayload =
  xp_pay :: nat64
  xp_ticketId :: string

text \<open>The \<open>Error\<close> variant of the source; every constructor carries the message.\<close>

datatype error =
  NotFound string
| Unauthorized string
| Forbidden string
| BadRequest string
| InternalError string

abbreviation Err :: "error \<Rightarrow> error + 'a" where
  "Err \<equiv> Inl"

abbreviation Ok :: "'a \<Rightarrow> error + 'a" where
  "Ok \<equiv> Inr"

definition USER_ROLE :: "string list" where
  "USER_ROLE = [''organizer'', ''participant'']"

definition TICKET_ROLE :: "string list" where
  "TICKET_ROLE = [''vvip'', ''vip'', ''regular'']"

text \<open>\<^verbatim>\<open>part_000\<close> names the same two constants \<open>USER_ROLES\<close> and \<open>TICKET_ROLES\<close>.\<close>

definition USER_ROLES :: "string list" where
  "USER_ROLES = [''organizer'', ''participant'']"

definition TICKET_ROLES :: "string list" where
  "TICKET_ROLES = [''vvip'', ''vip'', ''regular'']"

subsection \<open>The stable B-tree maps\<close>

text \<open>
  A \<open>StableBTreeMap\<close> is a list of key-value pairs. \<open>insert\<close> overwrites the entry of a
  key that is present and otherwise puts the new entry at its place in ascending key
  order, so \<open>values\<close> enumerates by key and not by time of creation. The order of the
  keys is the lexicographic order of the text; no result below depends on this choice.
\<close>

type_synonym ('k, 'v) btree = "('k \<times> 'v) list"

fun map_insert :: "'k::linorder \<Rightarrow> 'v \<Rightarrow> ('k, 'v) btree \<Rightarrow> ('k, 'v) btree" where
  "map_insert k v [] = [(k, v)]"
| "map_insert k v ((k', v') # m) =
     (if k = k' then (k, v) # m
      else if k < k' then (k, v) # (k', v') # m
      else (k', v') # map_insert k v m)"

definition map_get :: "('k, 'v) btree \<Rightarrow> 'k \<Rightarrow> 'v option" where
  "map_get m k = map_of m k"

definition containsKey :: "('k, 'v) btree \<Rightarrow> 'k \<Rightarrow> bool" where
  "containsKey m k = (map_of m k \<noteq> None)"

definition map_values :: "('k, 'v) btree \<Rightarrow> 'v list" where
  "map_values m = map snd m"

record state =
  userStorage :: "(principal, user) btree"
  eventStorage :: "(string, event) btree"
  ticketStorage :: "(string, ticket) btree"
  transactionStorage :: "(string, transaction) btree"

definition init_state :: state where
  "init_state = \<lparr>userStorage = [], eventStorage = [], ticketStorage = [],
     transactionStorage = []\<rparr>"

text \<open>
  What the host and the identifier generator give one call: \<open>ic.caller()\<close>, \<open>ic.time()\<close>
  (one value during a call) and \<open>uuidv4()\<close>, whose \<open>i\<close>-th result during the call is
  \<open>uuidv4 e i\<close>. The generator draws from \<open>Math.random\<close>, so nothing in the code makes
  two results differ: where a result needs fresh identifiers, it says so.
\<close>

record env =
  ic_caller :: principal
  ic_time :: nat64
  uuidv4 :: "nat \<Rightarrow> string"

text \<open>
  Every entry point wraps its body in \<open>try { ... } catch (error) { return Err({
  InternalError: `${error}` }) }\<close>. The one exception the bodies can raise is the
  \<open>TypeError\<close> of reading a property of \<open>undefined\<close> (\<open>x.Some\<close> of an absent option is
  \<open>undefined\<close>). The engine's wording after the error's name is not modelled.
\<close>

definition typeError :: error where
  "typeError = InternalError ''TypeError''"

text \<open>
  The decimal digits of a \<open>bigint\<close>, for \<open>${ticket.Some.price}\<close>; a \<open>nat64\<close> has
  at most 20 of them.
\<close>

fun digits :: "nat \<Rightarrow> nat \<Rightarrow> string" where
  "digits 0 n = []"
| "digits (Suc fuel) n =
     (if n < 10 then [char_of (48 + n)]
      else digits fuel (n div 10) @ [char_of (48 + n mod 10)])"

definition bigint_text :: "nat64 \<Rightarrow> string" where
  "bigint_text w = digits 20 (unat w)"

section \<open>\<^verbatim>\<open>src/src/index.ts\<close>\<close>

definition createUser :: "env \<Rightarrow> userPayload \<Rightarrow> state \<Rightarrow> (error + user) \<times> state" where
  "createUser e payload s =
     (if containsKey (userStorage s) (ic_caller e)
      then (Err (BadRequest ''You already have an account''), s)
      else if up_role payload \<notin> set USER_ROLE
      then (Err (BadRequest ''Please input a valid role: organizer or participant''), s)
      else
        let newUser = \<lparr>u_id = ic_caller e, u_name = up_name payload,
              u_role = up_role payload, u_createdAt = ic_time e, u_updatedAt = ic_time e\<rparr>
        in (Ok newUser,
            s\<lparr>userStorage := map_insert (u_id newUser) newUser (userStorage s)\<rparr>))"

text \<open>
  Wherever the source reads \<open>userStorage.get(ic.caller()).Some\<close>, a successful
  \<open>containsKey\<close> on the same key has gone before, so the branch for an absent entry is
  never taken. It is written as the \<open>TypeError\<close> that reading a field of the absent
  value would raise.
\<close>

definition getMe :: "env \<Rightarrow> state \<Rightarrow> error + user" where
  "getMe e s =
     (if \<not> containsKey (userStorage s) (ic_caller e)
      then Err (Unauthorized ''Create an account first'')
      else case map_get (userStorage s) (ic_caller e) of
             None \<Rightarrow> Err typeError
           | Some u \<Rightarrow> Ok u)"

definition createEvent :: "env \<Rightarrow> eventPayload \<Rightarrow> state \<Rightarrow> (error + event) \<times> state" where
  "createEvent e payload s =
     (if \<not> containsKey (userStorage s) (ic_caller e)
      then (Err (Unauthorized ''Create an account first''), s)
      else case map_get (userStorage s) (ic_caller e) of
        None \<Rightarrow> (Err typeError, s)
      | Some u \<Rightarrow>
         if u_role u \<noteq> ''organizer''
         then (Err (Forbidden ''Only organizers can create events''), s)
         else if ep_date payload < ic_time e
         then (Err (BadRequest ''Please input a valid date''), s)
         else
           let newEvent = \<lparr>ev_id = uuidv4 e 0, ev_name = ep_name payload,
                 ev_date = ep_date payload, ev_location = ep_location payload,
                 ev_organizerId = ic_caller e, ev_createdAt = ic_time e,
                 ev_updatedAt = ic_time e\<rparr>
           in (Ok newEvent,
               s\<lparr>eventStorage := map_insert (ev_id newEvent) newEvent (eventStorage s)\<rparr>))"

definition getEvents :: "state \<Rightarrow> error + event list" where
  "getEvents s = Ok (map_values (eventStorage s))"

text \<open>
  The ticket that the \<open>i\<close>-th round of the loop of \<open>createTickets\<close> builds. Both files
  build the same record: \<^verbatim>\<open>part_000\<close> writes \<open>...payload\<close> where
  \<^verbatim>\<open>src/src/index.ts\<close> copies \<open>role\<close>, \<open>price\<close> and \<open>eventId\<close> one by one.
\<close>

definition newTicket :: "env \<Rightarrow> ticketPayload \<Rightarrow> nat \<Rightarrow> ticket" where
  "newTicket e payload i =
     \<lparr>tk_id = uuidv4 e i, tk_role = tp_role payload, tk_price = tp_price payload,
      tk_eventId = tp_eventId payload, tk_participantId = None,
      tk_organizerId = ic_caller e, tk_createdAt = ic_time e, tk_updatedAt = ic_time e\<rparr>"

text \<open>
  \<open>for (let i = 0; i < quantity; i++) { ...; ticketStorage.insert(newTicket.id,
  newTicket); newTickets.push(newTicket); }\<close>, the same loop in both files.
\<close>

function createTickets_loop ::
  "env \<Rightarrow> ticketPayload \<Rightarrow> nat \<Rightarrow> nat \<Rightarrow> (string, ticket) btree \<Rightarrow> ticket list
     \<Rightarrow> (string, ticket) btree \<times> ticket list" where
  "createTickets_loop e payload quantity i store newTickets =
     (if i < quantity
      then createTickets_loop e payload quantity (Suc i)
             (map_insert (tk_id (newTicket e payload i)) (newTicket e payload i) store)
             (newTickets @ [newTicket e payload i])
      else (store, newTickets))"
  by pat_completeness auto
termination
  by (relation "measure (\<lambda>(e, payload, quantity, i, store, newTickets). quantity - i)") auto

declare createTickets_loop.simps [simp del]

definition createTickets ::
  "env \<Rightarrow> nat32 \<Rightarrow> ticketPayload \<Rightarrow> state \<Rightarrow> (error + ticket list) \<times> state" where
  "createTickets e quantity payload s =
     (if \<not> containsKey (userStorage s) (ic_caller e)
      then (Err (Unauthorized ''Create an account first''), s)
      else case map_get (userStorage s) (ic_caller e) of
        None \<Rightarrow> (Err typeError, s)
      | Some u \<Rightarrow>
         if u_role u \<noteq> ''organizer''
         then (Err (Forbidden ''Only organizers can create tickets''), s)
         else if tp_role payload \<notin> set TICKET_ROLE
         then (Err (BadRequest ''Please input a valid role: vvip, vip or regular''), s)
         else (case map_get (eventStorage s) (tp_eventId payload) of
           None \<Rightarrow>
             (Err (NotFound (''Event with id '' @ tp_eventId payload @ '' not found'')), s)
         | Some ev \<Rightarrow>
            if ev_organizerId ev \<noteq> ic_caller e
            then (Err (Forbidden ''Only event owner can create tickets''), s)
            else if ev_date ev < ic_time e
            then (Err (BadRequest ''Event already started''), s)
            else
              let (store, newTickets) =
                    createTickets_loop e payload (unat quantity) 0 (ticketStorage s) []
              in (Ok newTickets, s\<lparr>ticketStorage := store\<rparr>)))"

definition getTicketsByEvent :: "string \<Rightarrow> state \<Rightarrow> error + ticket list" where
  "getTicketsByEvent eventId s =
     (case map_get (eventStorage s) eventId of
        None \<Rightarrow> Err (NotFound (''Event with id '' @ eventId @ '' not found''))
      | Some ev \<Rightarrow>
          Ok (filter (\<lambda>ticket. tk_eventId ticket = eventId) (map_values (ticketStorage s))))"

text \<open>
  \<open>buyTicket\<close> and \<open>transferTicket\<close> end, in both files, with the same two writes:
  \<open>ticketStorage.insert(ticket.Some.id, { ...ticket.Some, participantId:
  Some(newTransaction.participantId), updatedAt: ic.time() });
  transactionStorage.insert(newTransaction.id, newTransaction)\<close>.
\<close>

definition insert_transaction :: "env \<Rightarrow> ticket \<Rightarrow> transaction \<Rightarrow> state \<Rightarrow> state" where
  "insert_transaction e ticket newTransaction s =
     s\<lparr>ticketStorage := map_insert (tk_id ticket)
          (ticket\<lparr>tk_participantId := Some (tx_participantId newTransaction),
             tk_updatedAt := ic_time e\<rparr>) (ticketStorage s),
       transactionStorage := map_insert (tx_id newTransaction) newTransaction
          (transactionStorage s)\<rparr>"

text \<open>
  The transaction of a purchase. \<^verbatim>\<open>src/src/index.ts\<close> writes \<open>pay: payload.pay,
  ticketId: payload.ticketId\<close>, \<^verbatim>\<open>part_000\<close> writes \<open>...payload\<close>: the same record.
\<close>

definition buy_transaction :: "env \<Rightarrow> transactionPayload \<Rightarrow> ticket \<Rightarrow> transaction" where
  "buy_transaction e payload ticket =
     \<lparr>tx_id = uuidv4 e 0, tx_mode = ''buy'', tx_pay = xp_pay payload,
      tx_ticketId = xp_ticketId payload, tx_senderId = None,
      tx_participantId = ic_caller e, tx_organizerId = tk_organizerId ticket,
      tx_createdAt = ic_time e, tx_updatedAt = ic_time e\<rparr>"

text \<open>The transaction of a transfer, written the same way in both files.\<close>

definition transfer_transaction :: "env \<Rightarrow> principal \<Rightarrow> ticket \<Rightarrow> transaction" where
  "transfer_transaction e participantId ticket =
     \<lparr>tx_id = uuidv4 e 0, tx_mode = ''transfer'', tx_pay = 0, tx_ticketId = tk_id ticket,
      tx_senderId = Some (ic_caller e), tx_participantId = participantId,
      tx_organizerId = tk_organizerId ticket, tx_createdAt = ic_time e,
      tx_updatedAt = ic_time e\<rparr>"

definition buyTicket ::
  "env \<Rightarrow> transactionPayload \<Rightarrow> state \<Rightarrow> (error + transaction) \<times> state" where
  "buyTicket e payload s =
     (if \<not> containsKey (userStorage s) (ic_caller e)
      then (Err (Unauthorized ''Create an account first''), s)
      else case map_get (userStorage s) (ic_caller e) of
        None \<Rightarrow> (Err typeError, s)
      | Some u \<Rightarrow>
         if u_role u \<noteq> ''participant''
         then (Err (Forbidden ''Only participants can buy tickets''), s)
         else (case map_get (ticketStorage s) (xp_ticketId payload) of
           None \<Rightarrow>
             (Err (NotFound (''Ticket with id '' @ xp_ticketId payload @ '' not found'')), s)
         | Some ticket \<Rightarrow>
            if tk_price ticket \<noteq> xp_pay payload
            then (Err (BadRequest (''Please pay the exact ticket price: ''
                        @ bigint_text (tk_price ticket))), s)
            else if tk_participantId ticket \<noteq> None
            then (Err (BadRequest ''Ticket has already been sold''), s)
            else
              let newTransaction = buy_transaction e payload ticket
              in (Ok newTransaction, insert_transaction e ticket newTransaction s)))"

text \<open>
  In \<open>transferTicket\<close> the holder is read as \<open>ticket.Some.participantId.Some?.toText()\<close>:
  for an unsold ticket the optional chain gives \<open>undefined\<close>, which differs from the
  caller's text, so the call ends in \<open>Forbidden\<close>.
\<close>

definition transferTicket ::
  "env \<Rightarrow> string \<Rightarrow> principal \<Rightarrow> state \<Rightarrow> (error + transaction) \<times> state" where
  "transferTicket e ticketId participantId s =
     (if \<not> containsKey (userStorage s) (ic_caller e)
      then (Err (Unauthorized ''Create an account first''), s)
      else if \<not> containsKey (userStorage s) participantId
      then (Err (NotFound (''User with id '' @ participantId @ '' not found'')), s)
      else case map_get (userStorage s) (ic_caller e) of
        None \<Rightarrow> (Err typeError, s)
      | Some sender \<Rightarrow>
         if u_role sender \<noteq> ''participant''
         then (Err (Forbidden ''Only participants can transfer tickets''), s)
         else (case map_get (userStorage s) participantId of
           None \<Rightarrow> (Err typeError, s)
         | Some receiver \<Rightarrow>
            if u_role receiver \<noteq> ''participant''
            then (Err (Forbidden ''Only participants can receive tickets''), s)
            else if ic_caller e = participantId
            then (Err (BadRequest ''You cannot transfer to yourself''), s)
            else (case map_get (ticketStorage s) ticketId of
              None \<Rightarrow> (Err (NotFound (''Ticket with id '' @ ticketId @ '' not found'')), s)
            | Some ticket \<Rightarrow>
               if tk_participantId ticket \<noteq> Some (ic_caller e)
               then (Err (Forbidden ''Only ticket owner can transfer it''), s)
               else
                 let newTransaction = transfer_transaction e participantId ticket
                 in (Ok newTransaction, insert_transaction e ticket newTransaction s))))"

definition getMyTickets :: "env \<Rightarrow> state \<Rightarrow> error + ticket list" where
  "getMyTickets e s =
     (if \<not> containsKey (userStorage s) (ic_caller e)
      then Err (Unauthorized ''Create an account first'')
      else case map_get (userStorage s) (ic_caller e) of
        None \<Rightarrow> Err typeError
      | Some u \<Rightarrow>
         Ok (filter (\<lambda>ticket.
               if u_role u = ''organizer''
               then tk_organizerId ticket = ic_caller e
               else tk_participantId ticket = Some (ic_caller e))
             (map_values (ticketStorage s))))"

definition getMyTransactions :: "env \<Rightarrow> state \<Rightarrow> error + transaction list" where
  "getMyTransactions e s =
     (if \<not> containsKey (userStorage s) (ic_caller e)
      then Err (Unauthorized ''Create an account first'')
      else case map_get (userStorage s) (ic_caller e) of
        None \<Rightarrow> Err typeError
      | Some u \<Rightarrow>
         Ok (filter (\<lambda>transaction.
               if u_role u = ''organizer''
               then tx_organizerId transaction = ic_caller e
               else tx_participantId transaction = ic_caller e
                  \<or> tx_senderId transaction = Some (ic_caller e))
             (map_values (transactionStorage s))))"

section \<open>The \<^verbatim>\<open>index.ts\<close> of \<^verbatim>\<open>src/unnamed/part_000\<close>\<close>

text \<open>
  \<open>isStringEmpty = (str) => !str.trim().length\<close>. A character of the model is a code
  unit below 256, so \<open>trim\<close> removes the white space and line terminators of JavaScript
  that lie in that range: tab, line feed, vertical tab, form feed, carriage return, space
  and the no-break space.
\<close>

definition whitespace :: "char \<Rightarrow> bool" where
  "whitespace c = ((of_char c :: nat) \<in> {9, 10, 11, 12, 13, 32, 160})"

definition trim :: "string \<Rightarrow> string" where
  "trim str = rev (dropWhile whitespace (rev (dropWhile whitespace str)))"

definition isStringEmpty :: "string \<Rightarrow> bool" where
  "isStringEmpty str = (length (trim str) = 0)"

definition isUserExists :: "state \<Rightarrow> principal \<Rightarrow> bool" where
  "isUserExists s ident = containsKey (userStorage s) ident"

definition isEventExists :: "state \<Rightarrow> string \<Rightarrow> bool" where
  "isEventExists s ident = containsKey (eventStorage s) ident"

definition isTicketExists :: "state \<Rightarrow> string \<Rightarrow> bool" where
  "isTicketExists s ident = containsKey (ticketStorage s) ident"

text \<open>
  \<open>isUserOrganizer = (id) => userStorage.get(id).Some.role === 'organizer'\<close>; \<open>None\<close> is
  the \<open>TypeError\<close> of reading \<open>role\<close> of \<open>undefined\<close> when the user is absent.
\<close>

definition isUserOrganizer :: "state \<Rightarrow> principal \<Rightarrow> bool option" where
  "isUserOrganizer s ident =
     (case map_get (userStorage s) ident of
        None \<Rightarrow> None
      | Some u \<Rightarrow> Some (u_role u = ''organizer''))"

text \<open>
  \<open>isProductOwner = (id, ownerId) => id.toText() === ownerId.toText()\<close>. The second
  argument is \<open>undefined\<close> when \<open>transferTicket\<close> passes the holder of an unsold ticket
  (\<open>ticket.Some.participantId.Some\<close>, without the optional chain of the other file):
  then \<open>ownerId.toText()\<close> raises a \<open>TypeError\<close>, the value \<open>None\<close> here.
\<close>

definition isProductOwner :: "principal \<Rightarrow> principal option \<Rightarrow> bool option" where
  "isProductOwner ident ownerId =
     (case ownerId of None \<Rightarrow> None | Some owner \<Rightarrow> Some (ident = owner))"

text \<open>
  The first check of \<open>createUser\<close> builds its error and drops it: the source has
  \<open>Err({ BadRequest: 'Name and role cannot be empty' });\<close> with no \<open>return\<close>.
\<close>

definition createUser_p0 :: "env \<Rightarrow> userPayload \<Rightarrow> state \<Rightarrow> (error + user) \<times> state" where
  "createUser_p0 e payload s =
     (let dropped =
            (if isStringEmpty (up_name payload) \<or> isStringEmpty (up_role payload)
             then [BadRequest ''Name and role cannot be empty''] else [])
      in if up_role payload \<notin> set USER_ROLES
         then (Err (BadRequest ''Please input a valid role (organizer or participant)''), s)
         else if isUserExists s (ic_caller e)
         then (Err (BadRequest ''You already have an account''), s)
         else
           let newUser = \<lparr>u_id = ic_caller e, u_name = up_name payload,
                 u_role = up_role payload, u_createdAt = ic_time e,
                 u_updatedAt = ic_time e\<rparr>
           in (Ok newUser,
               s\<lparr>userStorage := map_insert (u_id newUser) newUser (userStorage s)\<rparr>))"

definition createEvent_p0 ::
  "env \<Rightarrow> eventPayload \<Rightarrow> state \<Rightarrow> (error + event) \<times> state" where
  "createEvent_p0 e payload s =
     (if \<not> isUserExists s (ic_caller e)
      then (Err (Unauthorized ''Create an account first''), s)
      else case isUserOrganizer s (ic_caller e) of
        None \<Rightarrow> (Err typeError, s)
      | Some organizer \<Rightarrow>
         if \<not> organizer
         then (Err (Forbidden ''Only organizers can create events''), s)
         else if isStringEmpty (ep_name payload) \<or> isStringEmpty (ep_location payload)
                 \<or> ep_date payload = 0
         then (Err (BadRequest ''Name, date and location cannot be empty''), s)
         else if ep_date payload \<le> ic_time e
         then (Err (BadRequest ''Date must be a date in the future''), s)
         else
           let newEvent = \<lparr>ev_id = uuidv4 e 0, ev_name = ep_name payload,
                 ev_date = ep_date payload, ev_location = ep_location payload,
                 ev_organizerId = ic_caller e, ev_createdAt = ic_time e,
                 ev_updatedAt = ic_time e\<rparr>
           in (Ok newEvent,
               s\<lparr>eventStorage := map_insert (ev_id newEvent) newEvent (eventStorage s)\<rparr>))"

definition createTickets_p0 ::
  "env \<Rightarrow> nat32 \<Rightarrow> ticketPayload \<Rightarrow> state \<Rightarrow> (error + ticket list) \<times> state" where
  "createTickets_p0 e quantity payload s =
     (if \<not> isUserExists s (ic_caller e)
      then (Err (Unauthorized ''Create an account first''), s)
      else case isUserOrganizer s (ic_caller e) of
        None \<Rightarrow> (Err typeError, s)
      | Some organizer \<Rightarrow>
         if \<not> organizer
         then (Err (Forbidden ''Only organizers can create tickets''), s)
         else if quantity = 0 \<or> tp_price payload = 0 \<or> isStringEmpty (tp_role payload)
                 \<or> isStringEmpty (tp_eventId payload)
         then (Err (BadRequest ''Quantity, role, price and event ID cannot be empty''), s)
         else if quantity \<le> 0
         then (Err (BadRequest ''Quantity must be greater than 0''), s)
         else if tp_price payload \<le> 0
         then (Err (BadRequest ''Price must be greater than 0''), s)
         else if tp_role payload \<notin> set TICKET_ROLES
         then (Err (BadRequest ''Please input a valid role (vvip, vip or regular)''), s)
         else if \<not> isEventExists s (tp_eventId payload)
         then (Err (NotFound (''Event with id '' @ tp_eventId payload @ '' not found'')), s)
         else (case map_get (eventStorage s) (tp_eventId payload) of
           None \<Rightarrow> (Err typeError, s)
         | Some ev \<Rightarrow>
            (case isProductOwner (ic_caller e) (Some (ev_organizerId ev)) of
              None \<Rightarrow> (Err typeError, s)
            | Some owner \<Rightarrow>
               if \<not> owner
               then (Err (Forbidden ''Only event owner can create tickets''), s)
               else if ev_date ev \<le> ic_time e
               then (Err (BadRequest ''Event already started''), s)
               else
                 let (store, newTickets) =
                       createTickets_loop e payload (unat quantity) 0 (ticketStorage s) []
                 in (Ok newTickets, s\<lparr>ticketStorage := store\<rparr>))))"

definition getMe_p0 :: "env \<Rightarrow> state \<Rightarrow> error + user" where
  "getMe_p0 e s =
     (if \<not> isUserExists s (ic_caller e)
      then Err (Unauthorized ''Create an account first'')
      else case map_get (userStorage s) (ic_caller e) of
             None \<Rightarrow> Err typeError
           | Some u \<Rightarrow> Ok u)"

definition getEvents_p0 :: "state \<Rightarrow> error + event list" where
  "getEvents_p0 s = Ok (map_values (eventStorage s))"

definition getEventTickets :: "string \<Rightarrow> state \<Rightarrow> error + ticket list" where
  "getEventTickets eventId s =
     (if \<not> isEventExists s eventId
      then Err (NotFound (''Event with id '' @ eventId @ '' not found''))
      else Ok (filter (\<lambda>ticket. tk_eventId ticket = eventId) (map_values (ticketStorage s))))"

definition getMyTickets_p0 :: "env \<Rightarrow> state \<Rightarrow> error + ticket list" where
  "getMyTickets_p0 e s =
     (if \<not> isUserExists s (ic_caller e)
      then Err (Unauthorized ''Create an account first'')
      else case map_get (userStorage s) (ic_caller e) of
        None \<Rightarrow> Err typeError
      | Some u \<Rightarrow>
         Ok (filter (\<lambda>ticket.
               if u_role u = ''organizer''
               then tk_organizerId ticket = ic_caller e
               else tk_participantId ticket = Some (ic_caller e))
             (map_values (ticketStorage s))))"

definition getMyTransactions_p0 :: "env \<Rightarrow> state \<Rightarrow> error + transaction list" where
  "getMyTransactions_p0 e s =
     (if \<not> isUserExists s (ic_caller e)
      then Err (Unauthorized ''Create an account first'')
      else case map_get (userStorage s) (ic_caller e) of
        None \<Rightarrow> Err typeError
      | Some u \<Rightarrow>
         Ok (filter (\<lambda>transaction.
               if u_role u = ''organizer''
               then tx_organizerId transaction = ic_caller e
               else tx_participantId transaction = ic_caller e
                  \<or> tx_senderId transaction = Some (ic_caller e))
             (map_values (transactionStorage s))))"

definition buyTicket_p0 ::
  "env \<Rightarrow> transactionPayload \<Rightarrow> state \<Rightarrow> (error + transaction) \<times> state" where
  "buyTicket_p0 e payload s =
     (if \<not> isUserExists s (ic_caller e)
      then (Err (Unauthorized ''Create an account first''), s)
      else case isUserOrganizer s (ic_caller e) of
        None \<Rightarrow> (Err typeError, s)
      | Some organizer \<Rightarrow>
         if organizer
         then (Err (Forbidden ''Only participants can buy tickets''), s)
         else if xp_pay payload = 0 \<or> isStringEmpty (xp_ticketId payload)
         then (Err (BadRequest ''Pay and ticket ID cannot be empty''), s)
         else if \<not> isTicketExists s (xp_ticketId payload)
         then (Err (NotFound (''Ticket with id '' @ xp_ticketId payload @ '' not found'')), s)
         else (case map_get (ticketStorage s) (xp_ticketId payload) of
           None \<Rightarrow> (Err typeError, s)
         | Some ticket \<Rightarrow>
            if tk_price ticket \<noteq> xp_pay payload
            then (Err (BadRequest (''Please pay the exact ticket price: ''
                        @ bigint_text (tk_price ticket))), s)
            else if tk_participantId ticket \<noteq> None
            then (Err (BadRequest ''Ticket has already been sold''), s)
            else
              let newTransaction = buy_transaction e payload ticket
              in (Ok newTransaction, insert_transaction e ticket newTransaction s)))"

text \<open>
  In \<open>transferTicket\<close> the check \<open>!participantId\<close> is never true, a \<open>Principal\<close> being
  an object; \<open>a || b\<close> does not evaluate \<open>b\<close> when \<open>a\<close> holds.
\<close>

definition transferTicket_p0 ::
  "env \<Rightarrow> string \<Rightarrow> principal \<Rightarrow> state \<Rightarrow> (error + transaction) \<times> state" where
  "transferTicket_p0 e ticketId participantId s =
     (if \<not> isUserExists s (ic_caller e)
      then (Err (Unauthorized ''Create an account first''), s)
      else if isStringEmpty ticketId \<or> False
      then (Err (BadRequest ''Ticket ID and participant ID cannot be empty''), s)
      else if \<not> isUserExists s participantId
      then (Err (NotFound (''User with id '' @ participantId @ '' not found'')), s)
      else case isProductOwner (ic_caller e) (Some participantId) of
        None \<Rightarrow> (Err typeError, s)
      | Some same \<Rightarrow>
         if same
         then (Err (BadRequest ''You cannot transfer to yourself''), s)
         else (case isUserOrganizer s (ic_caller e) of
           None \<Rightarrow> (Err typeError, s)
         | Some senderOrganizer \<Rightarrow>
            (case (if senderOrganizer then Some True
                   else isUserOrganizer s participantId) of
              None \<Rightarrow> (Err typeError, s)
            | Some anyOrganizer \<Rightarrow>
               if anyOrganizer
               then (Err (Forbidden ''Only participants can transfer tickets''), s)
               else if \<not> isTicketExists s ticketId
               then (Err (NotFound (''Ticket with id '' @ ticketId @ '' not found'')), s)
               else (case map_get (ticketStorage s) ticketId of
                 None \<Rightarrow> (Err typeError, s)
               | Some ticket \<Rightarrow>
                  (case isProductOwner (ic_caller e) (tk_participantId ticket) of
                    None \<Rightarrow> (Err typeError, s)
                  | Some owner \<Rightarrow>
                     if \<not> owner
                     then (Err (Forbidden ''Only ticket owner can transfer it''), s)
                     else
                       let newTransaction = transfer_transaction e participantId ticket
                       in (Ok newTransaction,
                           insert_transaction e ticket newTransaction s))))))"

section \<open>The canister as a state machine\<close>

text \<open>
  The host runs one call at a time, each to completion. A call is an entry point with its
  arguments; its reply is the value of \<open>Ok\<close>. Queries leave the state as it is.
  \<open>GetTicketsByEvent\<close> is \<open>getTicketsByEvent\<close> in \<^verbatim>\<open>src/src/index.ts\<close> and
  \<open>getEventTickets\<close> in \<^verbatim>\<open>part_000\<close>.
\<close>

datatype call =
  CreateUser userPayload
| GetMe
| CreateEvent eventPayload
| GetEvents
| CreateTickets nat32 ticketPayload
| GetTicketsByEvent string
| BuyTicket transactionPayload
| TransferTicket string principal
| GetMyTickets
| GetMyTransactions

datatype reply =
  RUser user
| REvent event
| REvents "event list"
| RTickets "ticket list"
| RTransaction transaction
| RTransactions "transaction list"

definition update_reply ::
  "('a \<Rightarrow> reply) \<Rightarrow> (error + 'a) \<times> state \<Rightarrow> (error + reply) \<times> state" where
  "update_reply f r = (map_sum id f (fst r), snd r)"

definition query_reply :: "('a \<Rightarrow> reply) \<Rightarrow> error + 'a \<Rightarrow> state \<Rightarrow> (error + reply) \<times> state" where
  "query_reply f r s = (map_sum id f r, s)"

fun step :: "env \<Rightarrow> call \<Rightarrow> state \<Rightarrow> (error + reply) \<times> state" where
  "step e (CreateUser payload) s = update_reply RUser (createUser e payload s)"
| "step e GetMe s = query_reply RUser (getMe e s) s"
| "step e (CreateEvent payload) s = update_reply REvent (createEvent e payload s)"
| "step e GetEvents s = query_reply REvents (getEvents s) s"
| "step e (CreateTickets quantity payload) s =
     update_reply RTickets (createTickets e quantity payload s)"
| "step e (GetTicketsByEvent eventId) s = query_reply RTickets (getTicketsByEvent eventId s) s"
| "step e (BuyTicket payload) s = update_reply RTransaction (buyTicket e payload s)"
| "step e (TransferTicket ticketId participantId) s =
     update_reply RTransaction (transferTicket e ticketId participantId s)"
| "step e GetMyTickets s = query_reply RTickets (getMyTickets e s) s"
| "step e GetMyTransactions s = query_reply RTransactions (getMyTransactions e s) s"

fun step_p0 :: "env \<Rightarrow> call \<Rightarrow> state \<Rightarrow> (error + reply) \<times> state" where
  "step_p0 e (CreateUser payload) s = update_reply RUser (createUser_p0 e payload s)"
| "step_p0 e GetMe s = query_reply RUser (getMe_p0 e s) s"
| "step_p0 e (CreateEvent payload) s = update_reply REvent (createEvent_p0 e payload s)"
| "step_p0 e GetEvents s = query_reply REvents (getEvents_p0 s) s"
| "step_p0 e (CreateTickets quantity payload) s =
     update_reply RTickets (createTickets_p0 e quantity payload s)"
| "step_p0 e (GetTicketsByEvent eventId) s = query_reply RTickets (getEventTickets eventId s) s"
| "step_p0 e (BuyTicket payload) s = update_reply RTransaction (buyTicket_p0 e payload s)"
| "step_p0 e (TransferTicket ticketId participantId) s =
     update_reply RTransaction (transferTicket_p0 e ticketId participantId s)"
| "step_p0 e GetMyTickets s = query_reply RTickets (getMyTickets_p0 e s) s"
| "step_p0 e GetMyTransactions s = query_reply RTransactions (getMyTransactions_p0 e s) s"

datatype source_file = Index_ts | Part_000

fun canister :: "source_file \<Rightarrow> env \<Rightarrow> call \<Rightarrow> state \<Rightarrow> (error + reply) \<times> state" where
  "canister Index_ts = step"
| "canister Part_000 = step_p0"

fun run :: "source_file \<Rightarrow> (env \<times> call) list \<Rightarrow> state \<Rightarrow> state" where
  "run f [] s = s"
| "run f ((e, c) # cs) s = run f cs (snd (canister f e c s))"

section \<open>Well-formed states and example data\<close>

text \<open>
  Every entry of the ticket store is filed under the ticket's own \<open>id\<close>: \<open>createTickets\<close>
  inserts \<open>newTicket\<close> at \<open>newTicket.id\<close>, and a purchase or transfer writes the ticket
  it read back at \<open>ticket.Some.id\<close>.
\<close>

definition ticket_keys_ok :: "state \<Rightarrow> bool" where
  "ticket_keys_ok s = list_all (\<lambda>(k, t). tk_id t = k) (ticketStorage s)"

text \<open>
  What \<^verbatim>\<open>part_000\<close> keeps besides: a stored role is one of \<open>USER_ROLES\<close>, a stored price
  is not 0, and a ticket's key is not blank (it is a result of \<open>uuidv4\<close>).
\<close>

definition wf_p0 :: "state \<Rightarrow> bool" where
  "wf_p0 s =
     (list_all (\<lambda>(k, u). u_role u \<in> set USER_ROLES) (userStorage s)
      \<and> list_all (\<lambda>(k, t). tk_price t \<noteq> 0 \<and> \<not> isStringEmpty k) (ticketStorage s))"

definition uuid_ok :: "env \<Rightarrow> bool" where
  "uuid_ok e = (\<forall>i. \<not> isStringEmpty (uuidv4 e i))"

text \<open>
  Example data: an organizer \<open>O\<close>, two participants \<open>P\<close> and \<open>Q\<close>, one event, the unsold
  ticket \<open>t1\<close> and the ticket \<open>t2\<close> that \<open>P\<close> bought. The generator of the examples
  numbers its results: \<open>ex_uuid ''t''\<close> gives \<open>t1\<close>, \<open>t2\<close>, ...
\<close>

definition ex_uuid :: "string \<Rightarrow> nat \<Rightarrow> string" where
  "ex_uuid p i = p @ digits 20 (Suc i)"

definition ex_env :: "principal \<Rightarrow> string \<Rightarrow> env" where
  "ex_env who p = \<lparr>ic_caller = who, ic_time = 100, uuidv4 = ex_uuid p\<rparr>"

text \<open>An environment whose generator returns the same identifier each time.\<close>

definition ex_env_same :: "principal \<Rightarrow> string \<Rightarrow> env" where
  "ex_env_same who k = \<lparr>ic_caller = who, ic_time = 100, uuidv4 = (\<lambda>i. k)\<rparr>"

definition ex_calls :: "(env \<times> call) list" where
  "ex_calls =
     [(ex_env ''O'' ''u'', CreateUser \<lparr>up_name = ''Olga'', up_role = ''organizer''\<rparr>),
      (ex_env ''P'' ''u'', CreateUser \<lparr>up_name = ''Pat'', up_role = ''participant''\<rparr>),
      (ex_env ''Q'' ''u'', CreateUser \<lparr>up_name = ''Quinn'', up_role = ''participant''\<rparr>),
      (ex_env ''O'' ''e'',
         CreateEvent \<lparr>ep_name = ''Gig'', ep_date = 500, ep_location = ''Hall''\<rparr>),
      (ex_env ''O'' ''t'',
         CreateTickets 2 \<lparr>tp_role = ''vip'', tp_price = 100, tp_eventId = ''e1''\<rparr>),
      (ex_env ''P'' ''b'', BuyTicket \<lparr>xp_pay = 100, xp_ticketId = ''t2''\<rparr>)]"

definition ex_ticket :: "string \<Rightarrow> principal option \<Rightarrow> ticket" where
  "ex_ticket k holder =
     \<lparr>tk_id = k, tk_role = ''vip'', tk_price = 100, tk_eventId = ''e1'',
      tk_participantId = holder, tk_organizerId = ''O'', tk_createdAt = 100,
      tk_updatedAt = 100\<rparr>"

definition ex_user :: "principal \<Rightarrow> string \<Rightarrow> string \<Rightarrow> user" where
  "ex_user who name role =
     \<lparr>u_id = who, u_name = name, u_role = role, u_createdAt = 100, u_updatedAt = 100\<rparr>"

definition ex_state :: state where
  "ex_state =
     \<lparr>userStorage =
        [(''O'', ex_user ''O'' ''Olga'' ''organizer''),
         (''P'', ex_user ''P'' ''Pat'' ''participant''),
         (''Q'', ex_user ''Q'' ''Quinn'' ''participant'')],
      eventStorage =
        [(''e1'', \<lparr>ev_id = ''e1'', ev_name = ''Gig'', ev_date = 500, ev_location = ''Hall'',
            ev_organizerId = ''O'', ev_createdAt = 100, ev_updatedAt = 100\<rparr>)],
      ticketStorage = [(''t1'', ex_ticket ''t1'' None), (''t2'', ex_ticket ''t2'' (Some ''P''))],
      transactionStorage =
        [(''b1'', \<lparr>tx_id = ''b1'', tx_mode = ''buy'', tx_pay = 100, tx_ticketId = ''t2'',
            tx_senderId = None, tx_participantId = ''P'', tx_organizerId = ''O'',
            tx_createdAt = 100, tx_updatedAt = 100\<rparr>)]\<rparr>"

text \<open>
  What is asked of the identifier generator where a result needs it: the \<open>n\<close> results
  of one call are not keys of the ticket store (\<open>new_ids\<close>) and differ from one another
  (\<open>fresh_ids\<close>).
\<close>

definition new_ids :: "env \<Rightarrow> nat \<Rightarrow> state \<Rightarrow> bool" where
  "new_ids e n s = (\<forall>i \<in> set [0..<n]. uuidv4 e i \<notin> fst ` set (ticketStorage s))"

definition fresh_ids :: "env \<Rightarrow> nat \<Rightarrow> state \<Rightarrow> bool" where
  "fresh_ids e n s = (distinct (map (uuidv4 e) [0..<n]) \<and> new_ids e n s)"

text \<open>
  A sequence of calls is \<open>fresh_run\<close> when each \<open>createTickets\<close> in it draws
  identifiers that are not keys of the ticket store it meets. \<open>transition_ok\<close> lists
  the moves of a ticket's \<open>participantId\<close> that one call may make on the ticket filed
  under \<open>k\<close>: none; from empty to the caller, by a purchase of \<open>k\<close>; from the caller to
  the receiver, by a transfer of \<open>k\<close>.
\<close>

definition fresh_call :: "env \<Rightarrow> call \<Rightarrow> state \<Rightarrow> bool" where
  "fresh_call e c s =
     (case c of CreateTickets quantity payload \<Rightarrow> new_ids e (unat quantity) s | _ \<Rightarrow> True)"

fun fresh_run :: "source_file \<Rightarrow> (env \<times> call) list \<Rightarrow> state \<Rightarrow> bool" where
  "fresh_run f [] s = True"
| "fresh_run f ((e, c) # cs) s = (fresh_call e c s \<and> fresh_run f cs (snd (canister f e c s)))"

definition transition_ok ::
  "env \<Rightarrow> call \<Rightarrow> string \<Rightarrow> principal option \<Rightarrow> principal option \<Rightarrow> bool" where
  "transition_ok e c k old new =
     (new = old
      \<or> (case c of
            BuyTicket payload \<Rightarrow>
              k = xp_ticketId payload \<and> old = None \<and> new = Some (ic_caller e)
          | TransferTicket ticketId participantId \<Rightarrow>
              k = ticketId \<and> old = Some (ic_caller e) \<and> new = Some participantId
          | _ \<Rightarrow> False))"

text \<open>
  The claim about \<open>buyTicket\<close>, in its own words: a purchase is allowed when the caller
  is a registered participant, the ticket exists, the payment is its price and it has no
  holder; a purchase that is not allowed gets the error of the first of these that fails.
  The code has the one variant \<open>BadRequest\<close> for what the specification calls
  \<open>InvalidInput\<close>, \<open>InvalidState\<close> and \<open>Conflict\<close>; the message tells them apart.
  \<open>buy_error_p0\<close> adds the check that only \<^verbatim>\<open>part_000\<close> makes before it looks the
  ticket up.
\<close>

definition buy_allowed :: "env \<Rightarrow> transactionPayload \<Rightarrow> state \<Rightarrow> bool" where
  "buy_allowed e payload s =
     (case map_of (userStorage s) (ic_caller e) of
        None \<Rightarrow> False
      | Some u \<Rightarrow>
          u_role u = ''participant''
          \<and> (case map_of (ticketStorage s) (xp_ticketId payload) of
                None \<Rightarrow> False
              | Some t \<Rightarrow> xp_pay payload = tk_price t \<and> tk_participantId t = None))"

definition buy_error :: "env \<Rightarrow> transactionPayload \<Rightarrow> state \<Rightarrow> error" where
  "buy_error e payload s =
     (case map_of (userStorage s) (ic_caller e) of
        None \<Rightarrow> Unauthorized ''Create an account first''
      | Some u \<Rightarrow>
          if u_role u \<noteq> ''participant''
          then Forbidden ''Only participants can buy tickets''
          else (case map_of (ticketStorage s) (xp_ticketId payload) of
            None \<Rightarrow> NotFound (''Ticket with id '' @ xp_ticketId payload @ '' not found'')
          | Some t \<Rightarrow>
              if xp_pay payload \<noteq> tk_price t
              then BadRequest (''Please pay the exact ticket price: ''
                     @ bigint_text (tk_price t))
              else BadRequest ''Ticket has already been sold''))"

definition buy_error_p0 :: "env \<Rightarrow> transactionPayload \<Rightarrow> state \<Rightarrow> error" where
  "buy_error_p0 e payload s =
     (case map_of (userStorage s) (ic_caller e) of
        None \<Rightarrow> Unauthorized ''Create an account first''
      | Some u \<Rightarrow>
          if u_role u \<noteq> ''participant''
          then Forbidden ''Only participants can buy tickets''
          else if xp_pay payload = 0 \<or> isStringEmpty (xp_ticketId payload)
          then BadRequest ''Pay and ticket ID cannot be empty''
          else buy_error e payload s)"

text \<open>
  A store is \<open>sorted_keys\<close> when its keys ascend strictly; then no key occurs twice and
  \<open>map_values\<close> lists each stored record once.
\<close>

definition sorted_keys :: "('k::linorder, 'v) btree \<Rightarrow> bool" where
  "sorted_keys m = sorted_wrt (<) (map fst m)"

definition stores_sorted :: "state \<Rightarrow> bool" where
  "stores_sorted s =
     (sorted_keys (userStorage s) \<and> sorted_keys (eventStorage s)
      \<and> sorted_keys (ticketStorage s) \<and> sorted_keys (transactionStorage s))"

section \<open>Properties\<close>

subsection \<open>The maps and the loop\<close>

lemma map_of_map_insert: "map_of (map_insert k v m) = (map_of m)(k \<mapsto> v)"
  by (induction m) (auto simp: fun_eq_iff)

lemma set_map_insert: "set (map_insert k v m) \<subseteq> insert (k, v) (set m)"
  by (induction m) (auto split: if_splits)

lemma keys_map_insert: "fst ` set (map_insert k v m) = insert k (fst ` set m)"
  by (simp add: dom_map_of_conv_image_fst [symmetric] map_of_map_insert)

lemma mset_map_insert_fresh:
  "k \<notin> fst ` set m \<Longrightarrow> mset (map_insert k v m) = add_mset (k, v) (mset m)"
  by (induction m) auto

lemma length_map_insert_fresh:
  "k \<notin> fst ` set m \<Longrightarrow> length (map_insert k v m) = Suc (length m)"
  by (induction m) auto

lemma containsKey_keys: "containsKey m k \<longleftrightarrow> k \<in> fst ` set m"
  by (simp add: containsKey_def map_of_eq_None_iff)

lemma createTickets_loop_fold:
  "createTickets_loop e p q i st acc =
     (fold (\<lambda>j. map_insert (uuidv4 e j) (newTicket e p j)) [i..<q] st,
      acc @ map (newTicket e p) [i..<q])"
proof (induction e p q i st acc rule: createTickets_loop.induct)
  case (1 e p q i st acc)
  show ?case
  proof (cases "i < q")
    case True
    then have "[i..<q] = i # [Suc i..<q]"
      by (simp add: upt_conv_Cons)
    with True 1 show ?thesis
      by (subst createTickets_loop.simps) (simp add: newTicket_def)
  next
    case False
    then show ?thesis
      by (subst createTickets_loop.simps) simp
  qed
qed


subsection \<open>What each entry point returns\<close>

lemma map_get_eq: "map_get m k = map_of m k"
  by (simp add: map_get_def)

lemma containsKey_map_of: "containsKey m k \<longleftrightarrow> map_of m k \<noteq> None"
  by (simp add: containsKey_def)

lemmas store_simps = map_get_eq containsKey_map_of isUserExists_def isEventExists_def
  isTicketExists_def isUserOrganizer_def isProductOwner_def

lemma createUser_Err: "createUser e p s = (Err x, s') \<Longrightarrow> s' = s"
  by (auto simp: createUser_def Let_def split: if_splits)

lemma createUser_Ok:
  "createUser e p s = (Ok u, s') \<Longrightarrow>
     map_of (userStorage s) (ic_caller e) = None \<and> up_role p \<in> set USER_ROLE
     \<and> u_id u = ic_caller e \<and> u_role u = up_role p \<and> u_name u = up_name p
     \<and> s' = s\<lparr>userStorage := map_insert (ic_caller e) u (userStorage s)\<rparr>"
  by (auto simp: createUser_def Let_def store_simps split: if_splits)

lemma createUser_p0_Err: "createUser_p0 e p s = (Err x, s') \<Longrightarrow> s' = s"
  by (auto simp: createUser_p0_def Let_def split: if_splits)

lemma createUser_p0_Ok:
  "createUser_p0 e p s = (Ok u, s') \<Longrightarrow>
     map_of (userStorage s) (ic_caller e) = None \<and> up_role p \<in> set USER_ROLES
     \<and> u_id u = ic_caller e \<and> u_role u = up_role p \<and> u_name u = up_name p
     \<and> s' = s\<lparr>userStorage := map_insert (ic_caller e) u (userStorage s)\<rparr>"
  by (auto simp: createUser_p0_def Let_def store_simps split: if_splits)

lemma createEvent_Err: "createEvent e p s = (Err x, s') \<Longrightarrow> s' = s"
  by (auto simp: createEvent_def Let_def split: if_splits option.splits)

lemma createEvent_Ok:
  "createEvent e p s = (Ok ev, s') \<Longrightarrow>
     s' = s\<lparr>eventStorage := map_insert (uuidv4 e 0) ev (eventStorage s)\<rparr>"
  by (auto simp: createEvent_def Let_def split: if_splits option.splits)

lemma createEvent_p0_Err: "createEvent_p0 e p s = (Err x, s') \<Longrightarrow> s' = s"
  by (auto simp: createEvent_p0_def Let_def split: if_splits option.splits)

lemma createEvent_p0_Ok:
  "createEvent_p0 e p s = (Ok ev, s') \<Longrightarrow>
     s' = s\<lparr>eventStorage := map_insert (uuidv4 e 0) ev (eventStorage s)\<rparr>"
  by (auto simp: createEvent_p0_def Let_def split: if_splits option.splits)

lemma createTickets_Err: "createTickets e q p s = (Err x, s') \<Longrightarrow> s' = s"
  by (auto simp: createTickets_def createTickets_loop_fold split: if_splits option.splits)

lemma createTickets_Ok:
  "createTickets e q p s = (Ok ts, s') \<Longrightarrow>
     ts = map (newTicket e p) [0..<unat q]
     \<and> s' = s\<lparr>ticketStorage :=
              fold (\<lambda>j. map_insert (uuidv4 e j) (newTicket e p j)) [0..<unat q]
                (ticketStorage s)\<rparr>"
  by (auto simp: createTickets_def createTickets_loop_fold split: if_splits option.splits)

lemma createTickets_p0_Err: "createTickets_p0 e q p s = (Err x, s') \<Longrightarrow> s' = s"
  by (auto simp: createTickets_p0_def createTickets_loop_fold split: if_splits option.splits)

lemma createTickets_p0_Ok:
  "createTickets_p0 e q p s = (Ok ts, s') \<Longrightarrow>
     q \<noteq> 0 \<and> tp_price p \<noteq> 0
     \<and> ts = map (newTicket e p) [0..<unat q]
     \<and> s' = s\<lparr>ticketStorage :=
              fold (\<lambda>j. map_insert (uuidv4 e j) (newTicket e p j)) [0..<unat q]
                (ticketStorage s)\<rparr>"
  by (auto simp: createTickets_p0_def createTickets_loop_fold split: if_splits option.splits)

lemma buyTicket_Err: "buyTicket e p s = (Err x, s') \<Longrightarrow> s' = s"
  by (auto simp: buyTicket_def Let_def split: if_splits option.splits)

lemma buyTicket_Ok:
  "buyTicket e p s = (Ok tx, s') \<Longrightarrow>
     \<exists>u t. map_of (userStorage s) (ic_caller e) = Some u \<and> u_role u = ''participant''
       \<and> map_of (ticketStorage s) (xp_ticketId p) = Some t
       \<and> tk_price t = xp_pay p \<and> tk_participantId t = None
       \<and> tx = buy_transaction e p t \<and> s' = insert_transaction e t tx s"
  by (auto simp: buyTicket_def Let_def store_simps split: if_splits option.splits)

lemma buyTicket_p0_Err: "buyTicket_p0 e p s = (Err x, s') \<Longrightarrow> s' = s"
  by (auto simp: buyTicket_p0_def Let_def split: if_splits option.splits)

lemma buyTicket_p0_Ok:
  "buyTicket_p0 e p s = (Ok tx, s') \<Longrightarrow>
     \<exists>u t. map_of (userStorage s) (ic_caller e) = Some u \<and> u_role u \<noteq> ''organizer''
       \<and> xp_pay p \<noteq> 0 \<and> \<not> isStringEmpty (xp_ticketId p)
       \<and> map_of (ticketStorage s) (xp_ticketId p) = Some t
       \<and> tk_price t = xp_pay p \<and> tk_participantId t = None
       \<and> tx = buy_transaction e p t \<and> s' = insert_transaction e t tx s"
  by (auto simp: buyTicket_p0_def Let_def store_simps split: if_splits option.splits)

lemma transferTicket_Err: "transferTicket e tid to s = (Err x, s') \<Longrightarrow> s' = s"
  by (auto simp: transferTicket_def Let_def split: if_splits option.splits)

lemma transferTicket_Ok:
  "transferTicket e tid to s = (Ok tx, s') \<Longrightarrow>
     \<exists>u r t. map_of (userStorage s) (ic_caller e) = Some u \<and> u_role u = ''participant''
       \<and> map_of (userStorage s) to = Some r \<and> u_role r = ''participant''
       \<and> ic_caller e \<noteq> to
       \<and> map_of (ticketStorage s) tid = Some t
       \<and> tk_participantId t = Some (ic_caller e)
       \<and> tx = transfer_transaction e to t \<and> s' = insert_transaction e t tx s"
  by (auto simp: transferTicket_def Let_def store_simps split: if_splits option.splits)

lemma transferTicket_p0_Err: "transferTicket_p0 e tid to s = (Err x, s') \<Longrightarrow> s' = s"
  by (auto simp: transferTicket_p0_def Let_def split: if_splits option.splits)

lemma transferTicket_p0_Ok:
  "transferTicket_p0 e tid to s = (Ok tx, s') \<Longrightarrow>
     \<exists>u r t. map_of (userStorage s) (ic_caller e) = Some u \<and> u_role u \<noteq> ''organizer''
       \<and> map_of (userStorage s) to = Some r \<and> u_role r \<noteq> ''organizer''
       \<and> ic_caller e \<noteq> to \<and> \<not> isStringEmpty tid
       \<and> map_of (ticketStorage s) tid = Some t
       \<and> tk_participantId t = Some (ic_caller e)
       \<and> tx = transfer_transaction e to t \<and> s' = insert_transaction e t tx s"
  by (auto simp: transferTicket_p0_def Let_def store_simps split: if_splits option.splits)


subsection \<open>Errors write nothing\<close>

lemma update_reply_Err: "update_reply g r = (Err x, s') \<longleftrightarrow> r = (Err x, s')"
  by (cases r, cases "fst r") (auto simp: update_reply_def)

lemma update_reply_Ok:
  "update_reply g r = (Ok y, s') \<longleftrightarrow> (\<exists>v. r = (Ok v, s') \<and> y = g v)"
  by (cases r, cases "fst r") (auto simp: update_reply_def)

lemma query_reply_state: "query_reply g r s = (y, s') \<Longrightarrow> s' = s"
  by (simp add: query_reply_def)

lemma step_Err: "step e c s = (Err x, s') \<Longrightarrow> s' = s"
  by (cases c)
    (auto simp: update_reply_Err
      dest: createUser_Err createEvent_Err createTickets_Err buyTicket_Err transferTicket_Err
        query_reply_state)

lemma step_p0_Err: "step_p0 e c s = (Err x, s') \<Longrightarrow> s' = s"
  by (cases c)
    (auto simp: update_reply_Err
      dest: createUser_p0_Err createEvent_p0_Err createTickets_p0_Err buyTicket_p0_Err
        transferTicket_p0_Err query_reply_state)

lemma canister_Err: "canister f e c s = (Err x, s') \<Longrightarrow> s' = s"
  by (cases f) (auto dest: step_Err step_p0_Err)

lemma insert_transaction_buy:
  "insert_transaction e t (buy_transaction e p t) s =
     s\<lparr>ticketStorage := map_insert (tk_id t)
          (t\<lparr>tk_participantId := Some (ic_caller e), tk_updatedAt := ic_time e\<rparr>)
          (ticketStorage s),
       transactionStorage := map_insert (tx_id (buy_transaction e p t)) (buy_transaction e p t)
          (transactionStorage s)\<rparr>"
  by (simp add: insert_transaction_def buy_transaction_def)

lemma insert_transaction_transfer:
  "insert_transaction e t (transfer_transaction e to t) s =
     s\<lparr>ticketStorage := map_insert (tk_id t)
          (t\<lparr>tk_participantId := Some to, tk_updatedAt := ic_time e\<rparr>)
          (ticketStorage s),
       transactionStorage := map_insert (tx_id (transfer_transaction e to t))
          (transfer_transaction e to t) (transactionStorage s)\<rparr>"
  by (simp add: insert_transaction_def transfer_transaction_def)

lemma canister_buy_Ok:
  assumes "canister f e (BuyTicket p) s = (Ok rep, s')"
  shows "\<exists>t tx. rep = RTransaction tx
           \<and> map_of (ticketStorage s) (xp_ticketId p) = Some t
           \<and> tk_participantId t = None
           \<and> tx = buy_transaction e p t \<and> s' = insert_transaction e t tx s"
proof (cases f)
  case Index_ts
  with assms obtain tx where "buyTicket e p s = (Ok tx, s')" "rep = RTransaction tx"
    by (auto simp: update_reply_Ok)
  then show ?thesis
    by (auto dest!: buyTicket_Ok)
next
  case Part_000
  with assms obtain tx where "buyTicket_p0 e p s = (Ok tx, s')" "rep = RTransaction tx"
    by (auto simp: update_reply_Ok)
  then show ?thesis
    by (auto dest!: buyTicket_p0_Ok)
qed

lemma canister_transfer_Ok:
  assumes "canister f e (TransferTicket tid to) s = (Ok rep, s')"
  shows "\<exists>t tx. rep = RTransaction tx
           \<and> map_of (ticketStorage s) tid = Some t
           \<and> tk_participantId t = Some (ic_caller e)
           \<and> tx = transfer_transaction e to t \<and> s' = insert_transaction e t tx s"
proof (cases f)
  case Index_ts
  with assms obtain tx where "transferTicket e tid to s = (Ok tx, s')" "rep = RTransaction tx"
    by (auto simp: update_reply_Ok)
  then show ?thesis
    by (auto dest!: transferTicket_Ok)
next
  case Part_000
  with assms obtain tx where "transferTicket_p0 e tid to s = (Ok tx, s')" "rep = RTransaction tx"
    by (auto simp: update_reply_Ok)
  then show ?thesis
    by (auto dest!: transferTicket_p0_Ok)
qed


lemmas ex_defs = ex_env_def ex_state_def ex_user_def ex_ticket_def ex_uuid_def


subsection \<open>Queries\<close>

text \<open>
  Claim C9. \<open>getMyTickets\<close> depends on the caller's role, in both files: for an
  organizer it returns the stored tickets whose \<open>organizerId\<close> is the caller, for a
  participant those whose \<open>participantId\<close> is the caller, each stored ticket that
  qualifies once and no other ticket.
\<close>

theorem getMyTickets_by_role:
  assumes "map_of (userStorage s) (ic_caller e) = Some u"
  shows "(u_role u = ''organizer'' \<longrightarrow>
            getMyTickets e s
              = Ok (filter (\<lambda>t. tk_organizerId t = ic_caller e) (map_values (ticketStorage s)))
          \<and> getMyTickets_p0 e s
              = Ok (filter (\<lambda>t. tk_organizerId t = ic_caller e) (map_values (ticketStorage s))))
       \<and> (u_role u = ''participant'' \<longrightarrow>
            getMyTickets e s
              = Ok (filter (\<lambda>t. tk_participantId t = Some (ic_caller e))
                     (map_values (ticketStorage s)))
          \<and> getMyTickets_p0 e s
              = Ok (filter (\<lambda>t. tk_participantId t = Some (ic_caller e))
                     (map_values (ticketStorage s))))"
  using assms by (simp add: getMyTickets_def getMyTickets_p0_def store_simps)

theorem getMyTickets_by_role_witness:
  "getMyTickets (ex_env ''O'' ''x'') ex_state = Ok [ex_ticket ''t1'' None, ex_ticket ''t2'' (Some ''P'')]
   \<and> getMyTickets_p0 (ex_env ''P'' ''x'') ex_state = Ok [ex_ticket ''t2'' (Some ''P'')]"
proof -
  have o: "map_of (userStorage ex_state) (ic_caller (ex_env ''O'' ''x''))
             = Some (ex_user ''O'' ''Olga'' ''organizer'')"
    by (simp add: ex_defs)
  have p: "map_of (userStorage ex_state) (ic_caller (ex_env ''P'' ''x''))
             = Some (ex_user ''P'' ''Pat'' ''participant'')"
    by (simp add: ex_defs)
  show ?thesis
    using getMyTickets_by_role [OF o] getMyTickets_by_role [OF p]
    by (simp add: ex_defs map_values_def)
qed

subsection \<open>What a purchase or a transfer leaves alone\<close>

lemma ticket_keys_okD:
  "ticket_keys_ok s \<Longrightarrow> map_of (ticketStorage s) k = Some t \<Longrightarrow> tk_id t = k"
  by (auto simp: ticket_keys_ok_def list_all_iff dest!: map_of_SomeD)

text \<open>
  Claim C10. In a state whose tickets are filed under their own \<open>id\<close>, a \<open>buyTicket\<close>
  or \<open>transferTicket\<close> of either file that returns \<open>Ok\<close> leaves every user and event
  record and every other ticket as it was, and of the ticket it names it keeps \<open>id\<close>,
  \<open>role\<close>, \<open>price\<close>, \<open>eventId\<close>, \<open>organizerId\<close> and \<open>createdAt\<close>: only
  \<open>participantId\<close> and \<open>updatedAt\<close> can differ.
\<close>

theorem buy_transfer_frame:
  assumes "ticket_keys_ok s"
    and "canister f e c s = (Ok rep, s')"
    and "c = BuyTicket p \<and> tid = xp_ticketId p \<or> c = TransferTicket tid to"
  shows "userStorage s' = userStorage s \<and> eventStorage s' = eventStorage s
       \<and> (\<forall>k. k \<noteq> tid \<longrightarrow> map_of (ticketStorage s') k = map_of (ticketStorage s) k)
       \<and> (\<exists>t t'. map_of (ticketStorage s) tid = Some t
             \<and> map_of (ticketStorage s') tid = Some t'
             \<and> tk_id t' = tk_id t \<and> tk_role t' = tk_role t \<and> tk_price t' = tk_price t
             \<and> tk_eventId t' = tk_eventId t \<and> tk_organizerId t' = tk_organizerId t
             \<and> tk_createdAt t' = tk_createdAt t)"
proof -
  from assms(2,3) obtain t tx where t: "map_of (ticketStorage s) tid = Some t"
    and s': "s' = insert_transaction e t tx s"
    using canister_buy_Ok [of f e p s rep s'] canister_transfer_Ok [of f e tid to s rep s']
    by auto
  from assms(1) t have "tk_id t = tid"
    by (rule ticket_keys_okD)
  with t s' show ?thesis
    by (simp add: insert_transaction_def map_of_map_insert)
qed

theorem buy_transfer_frame_witness:
  "userStorage (snd (canister Index_ts (ex_env ''Q'' ''b'')
       (BuyTicket \<lparr>xp_pay = 100, xp_ticketId = ''t1''\<rparr>) ex_state)) = userStorage ex_state
   \<and> map_of (ticketStorage (snd (canister Part_000 (ex_env ''P'' ''x'')
       (TransferTicket ''t2'' ''Q'') ex_state))) ''t1'' = Some (ex_ticket ''t1'' None)"
proof -
  have k: "ticket_keys_ok ex_state"
    by (simp add: ticket_keys_ok_def ex_defs)
  have 1: "canister Index_ts (ex_env ''Q'' ''b'')
        (BuyTicket \<lparr>xp_pay = 100, xp_ticketId = ''t1''\<rparr>) ex_state
      = (Ok (RTransaction (buy_transaction (ex_env ''Q'' ''b'')
               \<lparr>xp_pay = 100, xp_ticketId = ''t1''\<rparr> (ex_ticket ''t1'' None))),
         snd (canister Index_ts (ex_env ''Q'' ''b'')
           (BuyTicket \<lparr>xp_pay = 100, xp_ticketId = ''t1''\<rparr>) ex_state))"
    by code_simp
  have 2: "canister Part_000 (ex_env ''P'' ''x'') (TransferTicket ''t2'' ''Q'') ex_state
      = (Ok (RTransaction (transfer_transaction (ex_env ''P'' ''x'') ''Q''
               (ex_ticket ''t2'' (Some ''P'')))),
         snd (canister Part_000 (ex_env ''P'' ''x'') (TransferTicket ''t2'' ''Q'') ex_state))"
    by code_simp
  have 3: "map_of (ticketStorage ex_state) ''t1'' = Some (ex_ticket ''t1'' None)"
    by (simp add: ex_defs)
  show ?thesis
    using buy_transfer_frame [OF k 1, of "\<lparr>xp_pay = 100, xp_ticketId = ''t1''\<rparr>" "''t1''"]
      buy_transfer_frame [OF k 2, of _ "''t2''" "''Q''"] 3
    by simp
qed

subsection \<open>Issuing tickets\<close>

lemma fold_insert_map_of:
  "k \<notin> kf ` set js \<Longrightarrow>
     map_of (fold (\<lambda>j. map_insert (kf j) (vf j)) js m) k = map_of m k"
  by (induction js arbitrary: m) (auto simp: map_of_map_insert)

lemma fold_insert_set:
  "set (fold (\<lambda>j. map_insert (kf j) (vf j)) js m) \<subseteq> set m \<union> (\<lambda>j. (kf j, vf j)) ` set js"
proof (induction js arbitrary: m)
  case Nil
  show ?case by simp
next
  case (Cons j js)
  have "set (fold (\<lambda>j. map_insert (kf j) (vf j)) js (map_insert (kf j) (vf j) m))
          \<subseteq> set (map_insert (kf j) (vf j) m) \<union> (\<lambda>j. (kf j, vf j)) ` set js"
    by (rule Cons.IH)
  with set_map_insert [of "kf j" "vf j" m] show ?case
    by auto
qed

lemma fold_insert_mset:
  "distinct (map kf js) \<Longrightarrow> \<forall>j \<in> set js. kf j \<notin> fst ` set m \<Longrightarrow>
     mset (fold (\<lambda>j. map_insert (kf j) (vf j)) js m)
       = mset m + mset (map (\<lambda>j. (kf j, vf j)) js)"
proof (induction js arbitrary: m)
  case Nil
  show ?case by simp
next
  case (Cons j js)
  from Cons.prems have fresh: "kf j \<notin> fst ` set m"
    by simp
  from Cons.prems have "kf j \<notin> kf ` set js"
    by simp
  then have "kf i \<noteq> kf j" if "i \<in> set js" for i
    using that by (metis imageI)
  with Cons.prems have "\<forall>i \<in> set js. kf i \<notin> fst ` set (map_insert (kf j) (vf j) m)"
    by (simp add: keys_map_insert)
  with Cons.prems Cons.IH [of "map_insert (kf j) (vf j) m"] fresh show ?case
    by (simp add: mset_map_insert_fresh)
qed

text \<open>
  Claim C4, as amended. In both files, a \<open>createTickets\<close> that returns an error leaves
  the state as it was. One that returns \<open>Ok\<close> returns \<open>quantity\<close> tickets, each with
  the \<open>eventId\<close>, \<open>role\<close> and \<open>price\<close> of the payload and no \<open>participantId\<close>, the
  \<open>i\<close>-th with the \<open>i\<close>-th identifier that the generator gave, and writes to the ticket
  store only. When the generator's identifiers differ from one another and from every key
  of the store (\<open>fresh_ids\<close>), the returned identifiers are pairwise distinct and the
  store afterwards is the store before plus exactly the returned tickets, each under its
  \<open>id\<close>. The code tests neither condition.
\<close>

theorem createTickets_all_or_nothing:
  assumes "ct = createTickets \<or> ct = createTickets_p0"
    and "ct e q p s = (r, s')"
  shows "case r of
           Err x \<Rightarrow> s' = s
         | Ok ts \<Rightarrow>
             length ts = unat q
             \<and> (\<forall>t \<in> set ts. tk_eventId t = tp_eventId p \<and> tk_role t = tp_role p
                   \<and> tk_price t = tp_price p \<and> tk_participantId t = None)
             \<and> map tk_id ts = map (uuidv4 e) [0..<unat q]
             \<and> userStorage s' = userStorage s \<and> eventStorage s' = eventStorage s
             \<and> transactionStorage s' = transactionStorage s
             \<and> (fresh_ids e (unat q) s \<longrightarrow>
                  distinct (map tk_id ts)
                  \<and> mset (ticketStorage s')
                      = mset (ticketStorage s) + mset (map (\<lambda>t. (tk_id t, t)) ts))"
proof (cases r)
  case (Inl x)
  with assms show ?thesis
    by (auto dest: createTickets_Err createTickets_p0_Err)
next
  case (Inr ts)
  with assms have ts: "ts = map (newTicket e p) [0..<unat q]"
    and s': "s' = s\<lparr>ticketStorage :=
              fold (\<lambda>j. map_insert (uuidv4 e j) (newTicket e p j)) [0..<unat q]
                (ticketStorage s)\<rparr>"
    by (auto dest: createTickets_Ok createTickets_p0_Ok)
  have ids: "map tk_id ts = map (uuidv4 e) [0..<unat q]"
    by (simp add: ts newTicket_def)
  have entries: "map (\<lambda>t. (tk_id t, t)) ts
      = map (\<lambda>j. (uuidv4 e j, newTicket e p j)) [0..<unat q]"
    by (simp add: ts newTicket_def)
  have fields: "\<forall>t \<in> set ts. tk_eventId t = tp_eventId p \<and> tk_role t = tp_role p
      \<and> tk_price t = tp_price p \<and> tk_participantId t = None"
    by (auto simp: ts newTicket_def)
  have "mset (ticketStorage s') = mset (ticketStorage s) + mset (map (\<lambda>t. (tk_id t, t)) ts)"
    if "fresh_ids e (unat q) s"
    using that unfolding entries s'
    by (simp add: fresh_ids_def new_ids_def fold_insert_mset)
  with fields show ?thesis
    by (simp add: Inr ids) (simp add: ts s' fresh_ids_def)
qed

theorem createTickets_all_or_nothing_witness:
  "mset (ticketStorage (snd (createTickets (ex_env ''O'' ''n'') 2
       \<lparr>tp_role = ''vip'', tp_price = 7, tp_eventId = ''e1''\<rparr> ex_state)))
     = mset (ticketStorage ex_state)
       + {#(''n1'', newTicket (ex_env ''O'' ''n'')
              \<lparr>tp_role = ''vip'', tp_price = 7, tp_eventId = ''e1''\<rparr> 0),
           (''n2'', newTicket (ex_env ''O'' ''n'')
              \<lparr>tp_role = ''vip'', tp_price = 7, tp_eventId = ''e1''\<rparr> 1)#}
   \<and> mset (ticketStorage (snd (createTickets_p0 (ex_env ''O'' ''n'') 2
       \<lparr>tp_role = ''vip'', tp_price = 7, tp_eventId = ''e1''\<rparr> ex_state)))
     = mset (ticketStorage ex_state)
       + {#(''n1'', newTicket (ex_env ''O'' ''n'')
              \<lparr>tp_role = ''vip'', tp_price = 7, tp_eventId = ''e1''\<rparr> 0),
           (''n2'', newTicket (ex_env ''O'' ''n'')
              \<lparr>tp_role = ''vip'', tp_price = 7, tp_eventId = ''e1''\<rparr> 1)#}
   \<and> snd (createTickets_p0 (ex_env ''P'' ''n'') 2
       \<lparr>tp_role = ''vip'', tp_price = 7, tp_eventId = ''e1''\<rparr> ex_state) = ex_state"
proof -
  let ?p = "\<lparr>tp_role = ''vip'', tp_price = 7, tp_eventId = ''e1''\<rparr>"
  let ?ts = "[newTicket (ex_env ''O'' ''n'') ?p 0, newTicket (ex_env ''O'' ''n'') ?p 1]"
  have 1: "createTickets (ex_env ''O'' ''n'') 2 ?p ex_state
      = (Ok ?ts, snd (createTickets (ex_env ''O'' ''n'') 2 ?p ex_state))"
    by code_simp
  have 2: "createTickets_p0 (ex_env ''O'' ''n'') 2 ?p ex_state
      = (Ok ?ts, snd (createTickets_p0 (ex_env ''O'' ''n'') 2 ?p ex_state))"
    by code_simp
  have 3: "createTickets_p0 (ex_env ''P'' ''n'') 2 ?p ex_state
      = (Err (Forbidden ''Only organizers can create tickets''),
         snd (createTickets_p0 (ex_env ''P'' ''n'') 2 ?p ex_state))"
    by code_simp
  have 4: "fresh_ids (ex_env ''O'' ''n'') (unat (2 :: nat32)) ex_state"
    by code_simp
  have 5: "tk_id (newTicket (ex_env ''O'' ''n'') ?p 0) = ''n1''"
    "tk_id (newTicket (ex_env ''O'' ''n'') ?p 1) = ''n2''"
    by code_simp+
  show ?thesis
    using createTickets_all_or_nothing [OF disjI1 [OF refl] 1]
      createTickets_all_or_nothing [OF disjI2 [OF refl] 2]
      createTickets_all_or_nothing [OF disjI2 [OF refl] 3] 4 5
    by simp
qed

text \<open>
  Claim C4 as stated fails in both files. The organizer \<open>O\<close> asks for 2 tickets and the
  generator gives \<open>n1\<close> twice: the call returns two tickets of the same \<open>id\<close> and the
  store gains one entry. With the generator giving \<open>t1\<close> and \<open>t2\<close>, which are keys of
  the store, the call returns 2 tickets and the store gains none.
\<close>

theorem createTickets_repeated_id_counterexample:
  "map_sum id (map tk_id) (fst (createTickets (ex_env_same ''O'' ''n1'') 2
       \<lparr>tp_role = ''vip'', tp_price = 7, tp_eventId = ''e1''\<rparr> ex_state))
     = Ok [''n1'', ''n1'']
   \<and> length (ticketStorage (snd (createTickets (ex_env_same ''O'' ''n1'') 2
       \<lparr>tp_role = ''vip'', tp_price = 7, tp_eventId = ''e1''\<rparr> ex_state)))
     = length (ticketStorage ex_state) + 1
   \<and> map_sum id (map tk_id) (fst (createTickets_p0 (ex_env_same ''O'' ''n1'') 2
       \<lparr>tp_role = ''vip'', tp_price = 7, tp_eventId = ''e1''\<rparr> ex_state))
     = Ok [''n1'', ''n1'']
   \<and> length (ticketStorage (snd (createTickets_p0 (ex_env_same ''O'' ''n1'') 2
       \<lparr>tp_role = ''vip'', tp_price = 7, tp_eventId = ''e1''\<rparr> ex_state)))
     = length (ticketStorage ex_state) + 1
   \<and> map_sum id (map tk_id) (fst (createTickets (ex_env ''O'' ''t'') 2
       \<lparr>tp_role = ''vip'', tp_price = 7, tp_eventId = ''e1''\<rparr> ex_state))
     = Ok [''t1'', ''t2'']
   \<and> length (ticketStorage (snd (createTickets (ex_env ''O'' ''t'') 2
       \<lparr>tp_role = ''vip'', tp_price = 7, tp_eventId = ''e1''\<rparr> ex_state)))
     = length (ticketStorage ex_state)
   \<and> unat (2 :: nat32) = 2"
  by code_simp

subsection \<open>The life of a ticket\<close>

lemma USER_ROLE_eq: "USER_ROLE = USER_ROLES"
  by (simp add: USER_ROLE_def USER_ROLES_def)

lemma canister_cases [consumes 1, case_names same user event tickets buy transfer]:
  assumes "canister f e c s = (r, s')"
  obtains "s' = s"
  | p u where "c = CreateUser p" "map_of (userStorage s) (ic_caller e) = None"
      "u_role u \<in> set USER_ROLES"
      "s' = s\<lparr>userStorage := map_insert (ic_caller e) u (userStorage s)\<rparr>"
  | p ev where "c = CreateEvent p"
      "s' = s\<lparr>eventStorage := map_insert (uuidv4 e 0) ev (eventStorage s)\<rparr>"
  | q p where "c = CreateTickets q p" "f = Part_000 \<longrightarrow> tp_price p \<noteq> 0"
      "s' = s\<lparr>ticketStorage :=
              fold (\<lambda>j. map_insert (uuidv4 e j) (newTicket e p j)) [0..<unat q]
                (ticketStorage s)\<rparr>"
  | p t where "c = BuyTicket p" "map_of (ticketStorage s) (xp_ticketId p) = Some t"
      "tk_participantId t = None"
      "s' = insert_transaction e t (buy_transaction e p t) s"
  | tid to t where "c = TransferTicket tid to" "map_of (ticketStorage s) tid = Some t"
      "tk_participantId t = Some (ic_caller e)"
      "s' = insert_transaction e t (transfer_transaction e to t) s"
proof (cases r)
  case (Inl x)
  with assms have "s' = s"
    by (auto dest: canister_Err)
  then show ?thesis by (rule that(1))
next
  case (Inr rep)
  note ok = assms [unfolded Inr]
  show ?thesis
  proof (cases c)
    case (CreateUser p)
    with ok obtain u where "createUser e p s = (Ok u, s') \<or> createUser_p0 e p s = (Ok u, s')"
      by (cases f) (auto simp: update_reply_Ok)
    then show ?thesis
      using CreateUser
      by (intro that(2) [of p u]) (auto dest!: createUser_Ok createUser_p0_Ok simp: USER_ROLE_eq)
  next
    case (CreateEvent p)
    with ok obtain ev where "createEvent e p s = (Ok ev, s') \<or> createEvent_p0 e p s = (Ok ev, s')"
      by (cases f) (auto simp: update_reply_Ok)
    then show ?thesis
      using CreateEvent
      by (intro that(3) [of p ev]) (auto dest!: createEvent_Ok createEvent_p0_Ok)
  next
    case (CreateTickets q p)
    with ok obtain ts where "f = Index_ts \<and> createTickets e q p s = (Ok ts, s')
        \<or> f = Part_000 \<and> createTickets_p0 e q p s = (Ok ts, s')"
      by (cases f) (auto simp: update_reply_Ok)
    then show ?thesis
      using CreateTickets
      by (intro that(4) [of q p]) (auto dest!: createTickets_Ok createTickets_p0_Ok)
  next
    case (BuyTicket p)
    with ok canister_buy_Ok [of f e p s rep s'] show ?thesis
      by (auto intro: that(5))
  next
    case (TransferTicket tid to)
    with ok canister_transfer_Ok [of f e tid to s rep s'] show ?thesis
      by (auto intro: that(6))
  next
    case GetMe
    with ok have "s' = s" by (cases f) (auto dest: query_reply_state)
    then show ?thesis by (rule that(1))
  next
    case GetEvents
    with ok have "s' = s" by (cases f) (auto dest: query_reply_state)
    then show ?thesis by (rule that(1))
  next
    case (GetTicketsByEvent x)
    with ok have "s' = s" by (cases f) (auto dest: query_reply_state)
    then show ?thesis by (rule that(1))
  next
    case GetMyTickets
    with ok have "s' = s" by (cases f) (auto dest: query_reply_state)
    then show ?thesis by (rule that(1))
  next
    case GetMyTransactions
    with ok have "s' = s" by (cases f) (auto dest: query_reply_state)
    then show ?thesis by (rule that(1))
  qed
qed

lemma ticket_keys_ok_init: "ticket_keys_ok init_state"
  by (simp add: ticket_keys_ok_def init_state_def)

lemma ticket_keys_ok_iff:
  "ticket_keys_ok s \<longleftrightarrow> (\<forall>(k, t) \<in> set (ticketStorage s). tk_id t = k)"
  by (simp add: ticket_keys_ok_def list_all_iff)

lemma ticket_keys_ok_insert_transaction:
  assumes "ticket_keys_ok s"
  shows "ticket_keys_ok (insert_transaction e t tx s)"
  using assms set_map_insert [of "tk_id t"
      "t\<lparr>tk_participantId := Some (tx_participantId tx), tk_updatedAt := ic_time e\<rparr>"
      "ticketStorage s"]
  by (auto simp: ticket_keys_ok_iff insert_transaction_def)

lemma ticket_keys_ok_canister:
  assumes "ticket_keys_ok s" and "canister f e c s = (r, s')"
  shows "ticket_keys_ok s'"
  using assms(2)
proof (cases rule: canister_cases)
  case (tickets q p)
  with assms(1) fold_insert_set [of "uuidv4 e" "newTicket e p" "[0..<unat q]" "ticketStorage s"]
  show ?thesis
    by (auto simp: ticket_keys_ok_iff newTicket_def)
next
  case (buy p t)
  with assms(1) show ?thesis
    by (simp add: ticket_keys_ok_insert_transaction)
next
  case (transfer tid to t)
  with assms(1) show ?thesis
    by (simp add: ticket_keys_ok_insert_transaction)
qed (use assms(1) in \<open>simp_all add: ticket_keys_ok_def\<close>)

lemma ticket_keys_ok_run: "ticket_keys_ok s \<Longrightarrow> ticket_keys_ok (run f cs s)"
proof (induction cs arbitrary: s)
  case Nil
  then show ?case by simp
next
  case (Cons ec cs)
  obtain e c where ec: "ec = (e, c)" by (cases ec)
  from Cons.prems have "ticket_keys_ok (snd (canister f e c s))"
    by (rule ticket_keys_ok_canister) (rule surjective_pairing)
  then show ?case
    unfolding ec by (simp add: Cons.IH)
qed


lemma run_snoc: "run f (cs @ [(e, c)]) s = snd (canister f e c (run f cs s))"
  by (induction cs arbitrary: s) auto

lemma fresh_run_snoc:
  "fresh_run f (cs @ [(e, c)]) s \<longleftrightarrow> fresh_run f cs s \<and> fresh_call e c (run f cs s)"
  by (induction cs arbitrary: s) auto

lemma ticket_step:
  assumes keys: "ticket_keys_ok s" and fresh: "fresh_call e c s"
    and step: "canister f e c s = (r, s')"
    and t: "map_of (ticketStorage s) k = Some t"
  shows "\<exists>t'. map_of (ticketStorage s') k = Some t'
           \<and> transition_ok e c k (tk_participantId t) (tk_participantId t')"
  using step
proof (cases rule: canister_cases)
  case same
  with t show ?thesis by (simp add: transition_ok_def)
next
  case (user p u)
  with t show ?thesis by (simp add: transition_ok_def)
next
  case (event p ev)
  with t show ?thesis by (simp add: transition_ok_def)
next
  case (tickets q p)
  from t have "k \<in> fst ` set (ticketStorage s)"
    by (auto dest!: map_of_SomeD simp: image_iff intro: bexI [of _ "(k, t)"])
  moreover from fresh tickets(1)
  have "\<forall>i \<in> set [0..<unat q]. uuidv4 e i \<notin> fst ` set (ticketStorage s)"
    by (simp add: fresh_call_def new_ids_def)
  ultimately have "k \<notin> uuidv4 e ` set [0..<unat q]"
    by blast
  then have "map_of (ticketStorage s') k = map_of (ticketStorage s) k"
    unfolding tickets(3) by (simp add: fold_insert_map_of)
  with t show ?thesis by (simp add: transition_ok_def)
next
  case (buy p t0)
  from keys buy(2) have "tk_id t0 = xp_ticketId p"
    by (rule ticket_keys_okD)
  with t buy show ?thesis
    by (cases "k = xp_ticketId p")
      (auto simp: transition_ok_def insert_transaction_buy map_of_map_insert)
next
  case (transfer tid to t0)
  from keys transfer(2) have "tk_id t0 = tid"
    by (rule ticket_keys_okD)
  with t transfer show ?thesis
    by (cases "k = tid")
      (auto simp: transition_ok_def insert_transaction_transfer map_of_map_insert)
qed

lemma transition_ok_sold: "transition_ok e c k old new \<Longrightarrow> old \<noteq> None \<Longrightarrow> new \<noteq> None"
  by (auto simp: transition_ok_def split: call.splits)

lemma run_sold_stays_sold:
  assumes "ticket_keys_ok s" and "fresh_run f cs s"
    and "map_of (ticketStorage s) k = Some t" and "tk_participantId t \<noteq> None"
  shows "\<exists>t'. map_of (ticketStorage (run f cs s)) k = Some t' \<and> tk_participantId t' \<noteq> None"
  using assms
proof (induction cs arbitrary: s t)
  case Nil
  then show ?case by simp
next
  case (Cons ec cs)
  obtain e c where ec: "ec = (e, c)" by (cases ec)
  obtain r s' where step: "canister f e c s = (r, s')" by (cases "canister f e c s")
  from Cons.prems ec step have fresh: "fresh_call e c s" and rest: "fresh_run f cs s'"
    by simp_all
  from Cons.prems(1) step have keys': "ticket_keys_ok s'"
    by (rule ticket_keys_ok_canister)
  from ticket_step [OF Cons.prems(1) fresh step Cons.prems(3)]
  obtain t' where t': "map_of (ticketStorage s') k = Some t'"
    and "transition_ok e c k (tk_participantId t) (tk_participantId t')"
    by blast
  with Cons.prems(4) have "tk_participantId t' \<noteq> None"
    by (auto dest: transition_ok_sold)
  from Cons.IH [OF keys' rest t' this] show ?case
    by (simp add: ec step)
qed

text \<open>
  Claim C1, as amended. Take either file, a state \<open>s0\<close> whose tickets are filed under their own
  \<open>id\<close> (the initial state is one), any sequence of calls \<open>cs\<close> and one more call
  \<open>c\<close>, the generator giving new identifiers to each \<open>createTickets\<close>. Then every ticket
  present before \<open>c\<close> is present after it, and its \<open>participantId\<close> either stays, or
  goes from empty to the caller by a \<open>buyTicket\<close> of that ticket, or from the caller to
  the receiver by a \<open>transferTicket\<close> of that ticket; a ticket that has a holder in
  \<open>s0\<close> has one at the end of the sequence; and a \<open>buyTicket\<close> that returns \<open>Ok\<close>
  found the ticket without holder.
\<close>

theorem participantId_lifecycle:
  assumes "ticket_keys_ok s0" and "fresh_run f (cs @ [(e, c)]) s0"
    and "canister f e c (run f cs s0) = (r, s')"
  shows "(\<forall>k t. map_of (ticketStorage (run f cs s0)) k = Some t \<longrightarrow>
            (\<exists>t'. map_of (ticketStorage s') k = Some t'
               \<and> transition_ok e c k (tk_participantId t) (tk_participantId t')))
       \<and> (\<forall>k t. map_of (ticketStorage s0) k = Some t \<and> tk_participantId t \<noteq> None \<longrightarrow>
            (\<exists>t'. map_of (ticketStorage s') k = Some t' \<and> tk_participantId t' \<noteq> None))
       \<and> (\<forall>p rep. c = BuyTicket p \<and> r = Ok rep \<longrightarrow>
            (\<exists>t. map_of (ticketStorage (run f cs s0)) (xp_ticketId p) = Some t
               \<and> tk_participantId t = None))"
proof (intro conjI allI impI)
  fix k t
  assume "map_of (ticketStorage (run f cs s0)) k = Some t"
  moreover from assms(1) have "ticket_keys_ok (run f cs s0)"
    by (rule ticket_keys_ok_run)
  moreover from assms(2) have "fresh_call e c (run f cs s0)"
    by (simp add: fresh_run_snoc)
  ultimately show "\<exists>t'. map_of (ticketStorage s') k = Some t'
      \<and> transition_ok e c k (tk_participantId t) (tk_participantId t')"
    using assms(3) by (intro ticket_step)
next
  fix k t
  assume "map_of (ticketStorage s0) k = Some t \<and> tk_participantId t \<noteq> None"
  with run_sold_stays_sold [OF assms(1,2), of k t] assms(3)
  show "\<exists>t'. map_of (ticketStorage s') k = Some t' \<and> tk_participantId t' \<noteq> None"
    by (simp add: run_snoc)
next
  fix p rep
  assume "c = BuyTicket p \<and> r = Ok rep"
  with assms(3) canister_buy_Ok [of f e p "run f cs s0" rep s']
  show "\<exists>t. map_of (ticketStorage (run f cs s0)) (xp_ticketId p) = Some t
      \<and> tk_participantId t = None"
    by auto
qed


theorem participantId_lifecycle_witness:
  "(\<exists>t'. map_of (ticketStorage (snd (canister Part_000 (ex_env ''P'' ''x'')
            (TransferTicket ''t2'' ''Q'')
            (run Part_000
               [(ex_env ''O'' ''n'',
                 CreateTickets 2 \<lparr>tp_role = ''vip'', tp_price = 7, tp_eventId = ''e1''\<rparr>),
                (ex_env ''Q'' ''b'', BuyTicket \<lparr>xp_pay = 100, xp_ticketId = ''t1''\<rparr>)]
               ex_state)))) ''t2'' = Some t'
        \<and> tk_participantId t' \<noteq> None)
   \<and> (\<exists>t. map_of (ticketStorage ex_state) ''t1'' = Some t \<and> tk_participantId t = None)"
proof -
  let ?cs = "[(ex_env ''O'' ''n'',
                 CreateTickets 2 \<lparr>tp_role = ''vip'', tp_price = 7, tp_eventId = ''e1''\<rparr>),
              (ex_env ''Q'' ''b'', BuyTicket \<lparr>xp_pay = 100, xp_ticketId = ''t1''\<rparr>)]"
  let ?e = "ex_env ''P'' ''x''"
  let ?c = "TransferTicket ''t2'' ''Q''"
  let ?b = "BuyTicket \<lparr>xp_pay = 100, xp_ticketId = ''t1''\<rparr>"
  have k: "ticket_keys_ok ex_state"
    by (simp add: ticket_keys_ok_def ex_defs)
  have f1: "fresh_run Part_000 (?cs @ [(?e, ?c)]) ex_state"
    by code_simp
  have c1: "canister Part_000 ?e ?c (run Part_000 ?cs ex_state)
      = (fst (canister Part_000 ?e ?c (run Part_000 ?cs ex_state)),
         snd (canister Part_000 ?e ?c (run Part_000 ?cs ex_state)))"
    by simp
  have t2: "map_of (ticketStorage ex_state) ''t2'' = Some (ex_ticket ''t2'' (Some ''P''))
      \<and> tk_participantId (ex_ticket ''t2'' (Some ''P'')) \<noteq> None"
    by (simp add: ex_defs)
  have f2: "fresh_run Index_ts ([] @ [(ex_env ''Q'' ''b'', ?b)]) ex_state"
    by code_simp
  have c2: "canister Index_ts (ex_env ''Q'' ''b'') ?b (run Index_ts [] ex_state)
      = (Ok (RTransaction (buy_transaction (ex_env ''Q'' ''b'')
               \<lparr>xp_pay = 100, xp_ticketId = ''t1''\<rparr> (ex_ticket ''t1'' None))),
         snd (canister Index_ts (ex_env ''Q'' ''b'') ?b (run Index_ts [] ex_state)))"
    by code_simp
  from participantId_lifecycle [OF k f1 c1] t2
  have "\<exists>t'. map_of (ticketStorage (snd (canister Part_000 ?e ?c (run Part_000 ?cs ex_state))))
           ''t2'' = Some t' \<and> tk_participantId t' \<noteq> None"
    by blast
  moreover from participantId_lifecycle [OF k f2 c2]
  have "\<exists>t. map_of (ticketStorage ex_state) ''t1'' = Some t \<and> tk_participantId t = None"
    by simp
  ultimately show ?thesis
    by blast
qed

text \<open>
  Claim C1 as stated, for any sequence of calls, fails in both files. After the calls of
  the example the participant \<open>P\<close> holds the ticket \<open>t2\<close>; the organizer then asks for
  one more ticket and the generator gives the identifier \<open>t2\<close>: \<open>ticketStorage.insert\<close>
  overwrites the entry, and the ticket \<open>t2\<close> has no holder.
\<close>

theorem createTickets_reused_id_counterexample:
  "map_option tk_participantId (map_of (ticketStorage (run Index_ts ex_calls init_state)) ''t2'')
     = Some (Some ''P'')
   \<and> map_option tk_participantId
       (map_of (ticketStorage (run Index_ts
          (ex_calls @ [(ex_env_same ''O'' ''t2'',
             CreateTickets 1 \<lparr>tp_role = ''vip'', tp_price = 100, tp_eventId = ''e1''\<rparr>)])
          init_state)) ''t2'')
     = Some None
   \<and> map_option tk_participantId (map_of (ticketStorage (run Part_000 ex_calls init_state)) ''t2'')
     = Some (Some ''P'')
   \<and> map_option tk_participantId
       (map_of (ticketStorage (run Part_000
          (ex_calls @ [(ex_env_same ''O'' ''t2'',
             CreateTickets 1 \<lparr>tp_role = ''vip'', tp_price = 100, tp_eventId = ''e1''\<rparr>)])
          init_state)) ''t2'')
     = Some None"
  by code_simp

subsection \<open>Buying a ticket\<close>

lemma wf_p0_role:
  assumes "wf_p0 s" and "map_of (userStorage s) k = Some u" and "u_role u \<noteq> ''organizer''"
  shows "u_role u = ''participant''"
proof -
  from assms(2) have "(k, u) \<in> set (userStorage s)"
    by (rule map_of_SomeD)
  with assms(1) have "u_role u \<in> set USER_ROLES"
    by (auto simp: wf_p0_def list_all_iff)
  with assms(3) show ?thesis
    by (simp add: USER_ROLES_def)
qed

lemma wf_p0_ticket:
  assumes "wf_p0 s" and "map_of (ticketStorage s) k = Some t"
  shows "tk_price t \<noteq> 0 \<and> \<not> isStringEmpty k"
proof -
  from assms(2) have "(k, t) \<in> set (ticketStorage s)"
    by (rule map_of_SomeD)
  with assms(1) show ?thesis
    by (auto simp: wf_p0_def list_all_iff)
qed

lemma buyTicket_result:
  "buyTicket e p s =
     (if buy_allowed e p s
      then (Ok (buy_transaction e p (the (map_of (ticketStorage s) (xp_ticketId p)))),
            insert_transaction e (the (map_of (ticketStorage s) (xp_ticketId p)))
              (buy_transaction e p (the (map_of (ticketStorage s) (xp_ticketId p)))) s)
      else (Err (buy_error e p s), s))"
  by (auto simp: buyTicket_def buy_allowed_def buy_error_def store_simps Let_def
      split: option.splits)

lemma buyTicket_p0_result:
  assumes "wf_p0 s"
  shows "buyTicket_p0 e p s =
     (if buy_allowed e p s
      then (Ok (buy_transaction e p (the (map_of (ticketStorage s) (xp_ticketId p)))),
            insert_transaction e (the (map_of (ticketStorage s) (xp_ticketId p)))
              (buy_transaction e p (the (map_of (ticketStorage s) (xp_ticketId p)))) s)
      else (Err (buy_error_p0 e p s), s))"
proof (cases "map_of (userStorage s) (ic_caller e)")
  case None
  then show ?thesis
    by (simp add: buyTicket_p0_def buy_allowed_def buy_error_p0_def store_simps)
next
  case (Some u)
  note u = this
  show ?thesis
  proof (cases "u_role u = ''organizer''")
    case True
    with u show ?thesis
      by (simp add: buyTicket_p0_def buy_allowed_def buy_error_p0_def store_simps)
  next
    case False
    with assms u have role: "u_role u = ''participant''"
      by (rule wf_p0_role)
    show ?thesis
    proof (cases "map_of (ticketStorage s) (xp_ticketId p)")
      case None
      with u role show ?thesis
        by (simp add: buyTicket_p0_def buy_allowed_def buy_error_p0_def buy_error_def
            store_simps)
    next
      case (Some t)
      with assms have "tk_price t \<noteq> 0 \<and> \<not> isStringEmpty (xp_ticketId p)"
        by (rule wf_p0_ticket)
      with u role Some show ?thesis
        by (auto simp: buyTicket_p0_def buy_allowed_def buy_error_p0_def buy_error_def
            store_simps Let_def)
    qed
  qed
qed

text \<open>
  Claim C2, as amended. In a state whose tickets are filed under their own \<open>id\<close>,
  \<open>buyTicket\<close> of \<^verbatim>\<open>src/src/index.ts\<close> returns \<open>Ok\<close> exactly when the purchase is
  allowed. It then writes the ticket back with the caller as holder and the current time,
  and inserts, under the generator's identifier, the returned transaction, whose mode is
  \<open>buy\<close>, whose \<open>senderId\<close> is empty, whose \<open>participantId\<close> is the caller and whose
  \<open>pay\<close> is the payment. The transaction store grows by this one entry when the
  identifier is not yet a key of it; the code does not test this, and an identifier that
  is a key has its transaction replaced. Otherwise \<open>buyTicket\<close> returns the error of
  \<open>buy_error\<close> and the state as it was. The same holds of \<^verbatim>\<open>part_000\<close> in the
  states it keeps to (\<open>wf_p0\<close>), with the errors of \<open>buy_error_p0\<close>: a registered
  participant who pays 0 or names a blank ticket is refused with \<open>BadRequest\<close> before
  the ticket is looked up.
\<close>

theorem buyTicket_spec:
  assumes "ticket_keys_ok s"
    and "buy = buyTicket \<and> err = buy_error
         \<or> buy = buyTicket_p0 \<and> err = buy_error_p0 \<and> wf_p0 s"
    and "buy e p s = (r, s')"
  shows "if buy_allowed e p s
         then \<exists>t tx. map_of (ticketStorage s) (xp_ticketId p) = Some t \<and> r = Ok tx
                \<and> tx_id tx = uuidv4 e 0
                \<and> tx_mode tx = ''buy'' \<and> tx_senderId tx = None
                \<and> tx_participantId tx = ic_caller e \<and> tx_pay tx = xp_pay p
                \<and> tx_ticketId tx = xp_ticketId p
                \<and> s' = s\<lparr>ticketStorage := map_insert (xp_ticketId p)
                           (t\<lparr>tk_participantId := Some (ic_caller e),
                              tk_updatedAt := ic_time e\<rparr>) (ticketStorage s),
                         transactionStorage := map_insert (tx_id tx) tx
                           (transactionStorage s)\<rparr>
                \<and> (tx_id tx \<notin> fst ` set (transactionStorage s) \<longrightarrow>
                     mset (transactionStorage s')
                       = add_mset (tx_id tx, tx) (mset (transactionStorage s)))
         else r = Err (err e p s) \<and> s' = s"
proof -
  let ?t = "the (map_of (ticketStorage s) (xp_ticketId p))"
  from assms(2,3) have res: "(r, s') =
     (if buy_allowed e p s
      then (Ok (buy_transaction e p ?t), insert_transaction e ?t (buy_transaction e p ?t) s)
      else (Err (err e p s), s))"
    by (auto simp: buyTicket_result buyTicket_p0_result)
  show ?thesis
  proof (cases "buy_allowed e p s")
    case False
    with res show ?thesis by simp
  next
    case True
    then obtain t where t: "map_of (ticketStorage s) (xp_ticketId p) = Some t"
      by (auto simp: buy_allowed_def split: option.splits)
    with assms(1) have id: "tk_id t = xp_ticketId p"
      by (rule ticket_keys_okD)
    from True res t have r: "r = Ok (buy_transaction e p t)"
      and s': "s' = insert_transaction e t (buy_transaction e p t) s"
      by simp_all
    from True t r s' id show ?thesis
      by (simp add: insert_transaction_buy mset_map_insert_fresh)
        (simp add: buy_transaction_def)
  qed
qed

text \<open>The state of the examples is reached from the initial state, in both files.\<close>

lemma ex_state_reachable: "run Index_ts ex_calls init_state = ex_state"
  by code_simp

lemma ex_state_reachable_p0: "run Part_000 ex_calls init_state = ex_state"
  by code_simp

text \<open>
  \<open>wf_p0\<close> holds initially and after every call of \<^verbatim>\<open>part_000\<close>, the generator
  giving identifiers that are not blank.
\<close>

lemma wf_p0_init: "wf_p0 init_state"
  by (simp add: wf_p0_def init_state_def)

lemma wf_p0_iff:
  "wf_p0 s \<longleftrightarrow>
     (\<forall>(k, u) \<in> set (userStorage s). u_role u \<in> set USER_ROLES)
     \<and> (\<forall>(k, t) \<in> set (ticketStorage s). tk_price t \<noteq> 0 \<and> \<not> isStringEmpty k)"
  by (simp add: wf_p0_def list_all_iff)

lemma wf_p0_insert_transaction:
  assumes "wf_p0 s" and "ticket_keys_ok s" and "map_of (ticketStorage s) k = Some t"
  shows "wf_p0 (insert_transaction e t tx s)"
proof -
  from assms(2,3) have "tk_id t = k"
    by (rule ticket_keys_okD)
  moreover from assms(1,3) have "tk_price t \<noteq> 0 \<and> \<not> isStringEmpty k"
    by (rule wf_p0_ticket)
  ultimately show ?thesis
    using assms(1) set_map_insert [of k
        "t\<lparr>tk_participantId := Some (tx_participantId tx), tk_updatedAt := ic_time e\<rparr>"
        "ticketStorage s"]
    by (auto simp: wf_p0_iff insert_transaction_def)
qed

lemma wf_p0_canister:
  assumes "wf_p0 s" and "ticket_keys_ok s" and "uuid_ok e"
    and "canister Part_000 e c s = (r, s')"
  shows "wf_p0 s'"
  using assms(4)
proof (cases rule: canister_cases)
  case same
  with assms(1) show ?thesis by simp
next
  case (user p u)
  with assms(1) set_map_insert [of "ic_caller e" u "userStorage s"] show ?thesis
    by (auto simp: wf_p0_iff)
next
  case (event p ev)
  with assms(1) show ?thesis by (simp add: wf_p0_def)
next
  case (tickets q p)
  with assms(1,3)
    fold_insert_set [of "uuidv4 e" "newTicket e p" "[0..<unat q]" "ticketStorage s"]
  show ?thesis
    by (auto simp: wf_p0_iff newTicket_def uuid_ok_def)
next
  case (buy p t)
  with assms(1,2) show ?thesis
    by (simp add: wf_p0_insert_transaction)
next
  case (transfer tid to t)
  with assms(1,2) show ?thesis
    by (simp add: wf_p0_insert_transaction)
qed

lemma wf_p0_run:
  "wf_p0 s \<Longrightarrow> ticket_keys_ok s \<Longrightarrow> \<forall>(e, c) \<in> set cs. uuid_ok e \<Longrightarrow>
     wf_p0 (run Part_000 cs s)"
proof (induction cs arbitrary: s)
  case Nil
  then show ?case by simp
next
  case (Cons ec cs)
  obtain e c where ec: "ec = (e, c)" by (cases ec)
  obtain r s' where step: "canister Part_000 e c s = (r, s')"
    by (cases "canister Part_000 e c s")
  from Cons.prems ec have "uuid_ok e" by simp
  with Cons.prems(1,2) have "wf_p0 s'"
    using step by (rule wf_p0_canister)
  moreover from Cons.prems(2) step have "ticket_keys_ok s'"
    by (rule ticket_keys_ok_canister)
  moreover from Cons.prems(3) have "\<forall>(e, c) \<in> set cs. uuid_ok e" by simp
  ultimately have "wf_p0 (run Part_000 cs s')"
    by (rule Cons.IH)
  with step show ?case
    by (simp add: ec)
qed

text \<open>
  Claim C2 as stated fails in two places. In \<^verbatim>\<open>part_000\<close> the participant \<open>Q\<close>
  pays 100 for the ticket \<open>'' ''\<close>, which does not exist: the claim's error is
  \<open>NotFound\<close>, the call returns \<open>BadRequest\<close>. In both files \<open>Q\<close> buys the ticket
  \<open>t1\<close> and the generator gives the identifier \<open>b1\<close>, under which the purchase of
  \<open>P\<close> is stored: no transaction is appended, the one of \<open>P\<close> is replaced. The state
  of the example is one that the canister reaches (\<open>ex_state_reachable\<close>,
  \<open>ex_state_reachable_p0\<close>).
\<close>

theorem buyTicket_p0_blank_id_counterexample:
  "\<not> buy_allowed (ex_env ''Q'' ''b'') \<lparr>xp_pay = 100, xp_ticketId = '' ''\<rparr> ex_state
   \<and> buy_error (ex_env ''Q'' ''b'') \<lparr>xp_pay = 100, xp_ticketId = '' ''\<rparr> ex_state
       = NotFound ''Ticket with id   not found''
   \<and> buyTicket_p0 (ex_env ''Q'' ''b'') \<lparr>xp_pay = 100, xp_ticketId = '' ''\<rparr> ex_state
       = (Err (BadRequest ''Pay and ticket ID cannot be empty''), ex_state)
   \<and> buy_allowed (ex_env ''Q'' ''b'') \<lparr>xp_pay = 100, xp_ticketId = ''t1''\<rparr> ex_state
   \<and> map tx_participantId (map_values (transactionStorage ex_state)) = [''P'']
   \<and> map tx_participantId (map_values (transactionStorage
        (snd (buyTicket (ex_env ''Q'' ''b'') \<lparr>xp_pay = 100, xp_ticketId = ''t1''\<rparr> ex_state))))
       = [''Q'']
   \<and> map tx_participantId (map_values (transactionStorage
        (snd (buyTicket_p0 (ex_env ''Q'' ''b'') \<lparr>xp_pay = 100, xp_ticketId = ''t1''\<rparr>
           ex_state))))
       = [''Q'']"
  by code_simp

theorem buyTicket_spec_witness:
  "(\<exists>tx. fst (buyTicket (ex_env ''Q'' ''c'') \<lparr>xp_pay = 100, xp_ticketId = ''t1''\<rparr> ex_state)
           = Ok tx
        \<and> tx_senderId tx = None \<and> tx_participantId tx = ''Q'' \<and> tx_pay tx = 100
        \<and> mset (transactionStorage (snd (buyTicket (ex_env ''Q'' ''c'')
              \<lparr>xp_pay = 100, xp_ticketId = ''t1''\<rparr> ex_state)))
            = add_mset (''c1'', tx) (mset (transactionStorage ex_state)))
   \<and> (\<exists>tx. fst (buyTicket_p0 (ex_env ''Q'' ''c'') \<lparr>xp_pay = 100, xp_ticketId = ''t1''\<rparr>
             ex_state) = Ok tx
        \<and> mset (transactionStorage (snd (buyTicket_p0 (ex_env ''Q'' ''c'')
              \<lparr>xp_pay = 100, xp_ticketId = ''t1''\<rparr> ex_state)))
            = add_mset (''c1'', tx) (mset (transactionStorage ex_state)))
   \<and> buyTicket_p0 (ex_env ''Q'' ''c'') \<lparr>xp_pay = 100, xp_ticketId = ''t2''\<rparr> ex_state
       = (Err (BadRequest ''Ticket has already been sold''), ex_state)"
proof -
  let ?e = "ex_env ''Q'' ''c''"
  let ?p1 = "\<lparr>xp_pay = 100, xp_ticketId = ''t1''\<rparr>"
  let ?p2 = "\<lparr>xp_pay = 100, xp_ticketId = ''t2''\<rparr>"
  have k: "ticket_keys_ok ex_state"
    by (simp add: ticket_keys_ok_def ex_defs)
  have w: "wf_p0 ex_state"
    by code_simp
  have a: "buy_allowed ?e ?p1 ex_state"
    by code_simp
  have b: "\<not> buy_allowed ?e ?p2 ex_state"
    by code_simp
  have c: "buy_error_p0 ?e ?p2 ex_state = BadRequest ''Ticket has already been sold''"
    by code_simp
  have n: "''c1'' \<notin> fst ` set (transactionStorage ex_state)"
    by (simp add: ex_defs)
  have i: "uuidv4 ?e 0 = ''c1''"
    by code_simp
  have q: "ic_caller ?e = ''Q''"
    by (simp add: ex_env_def)
  from buyTicket_spec [OF k disjI1 [OF conjI [OF refl refl]] surjective_pairing, of ?e ?p1] a
  obtain t tx where h1: "map_of (ticketStorage ex_state) (xp_ticketId ?p1) = Some t
      \<and> fst (buyTicket ?e ?p1 ex_state) = Ok tx \<and> tx_id tx = uuidv4 ?e 0
      \<and> tx_mode tx = ''buy'' \<and> tx_senderId tx = None
      \<and> tx_participantId tx = ic_caller ?e \<and> tx_pay tx = xp_pay ?p1
      \<and> tx_ticketId tx = xp_ticketId ?p1
      \<and> snd (buyTicket ?e ?p1 ex_state) = ex_state\<lparr>ticketStorage := map_insert (xp_ticketId ?p1)
                 (t\<lparr>tk_participantId := Some (ic_caller ?e),
                    tk_updatedAt := ic_time ?e\<rparr>) (ticketStorage ex_state),
               transactionStorage := map_insert (tx_id tx) tx (transactionStorage ex_state)\<rparr>
      \<and> (tx_id tx \<notin> fst ` set (transactionStorage ex_state) \<longrightarrow>
           mset (transactionStorage (snd (buyTicket ?e ?p1 ex_state)))
             = add_mset (tx_id tx, tx) (mset (transactionStorage ex_state)))"
    by (simp only: if_True) blast
  from h1 i have id1: "tx_id tx = ''c1''"
    by simp
  from h1 have "tx_id tx \<notin> fst ` set (transactionStorage ex_state) \<longrightarrow>
      mset (transactionStorage (snd (buyTicket ?e ?p1 ex_state)))
        = add_mset (tx_id tx, tx) (mset (transactionStorage ex_state))"
    by blast
  with id1 n have g1: "mset (transactionStorage (snd (buyTicket ?e ?p1 ex_state)))
      = add_mset (''c1'', tx) (mset (transactionStorage ex_state))"
    by simp
  from h1 q have "fst (buyTicket ?e ?p1 ex_state) = Ok tx
      \<and> tx_senderId tx = None \<and> tx_participantId tx = ''Q'' \<and> tx_pay tx = 100"
    by simp
  with g1 have 1: "\<exists>tx. fst (buyTicket ?e ?p1 ex_state) = Ok tx
      \<and> tx_senderId tx = None \<and> tx_participantId tx = ''Q'' \<and> tx_pay tx = 100
      \<and> mset (transactionStorage (snd (buyTicket ?e ?p1 ex_state)))
          = add_mset (''c1'', tx) (mset (transactionStorage ex_state))"
    by blast
  from buyTicket_spec [OF k disjI2 [OF conjI [OF refl conjI [OF refl w]]] surjective_pairing,
      of ?e ?p1] a
  obtain t' tx' where h2: "map_of (ticketStorage ex_state) (xp_ticketId ?p1) = Some t'
      \<and> fst (buyTicket_p0 ?e ?p1 ex_state) = Ok tx' \<and> tx_id tx' = uuidv4 ?e 0
      \<and> tx_mode tx' = ''buy'' \<and> tx_senderId tx' = None
      \<and> tx_participantId tx' = ic_caller ?e \<and> tx_pay tx' = xp_pay ?p1
      \<and> tx_ticketId tx' = xp_ticketId ?p1
      \<and> snd (buyTicket_p0 ?e ?p1 ex_state) = ex_state\<lparr>ticketStorage := map_insert (xp_ticketId ?p1)
                 (t'\<lparr>tk_participantId := Some (ic_caller ?e),
                    tk_updatedAt := ic_time ?e\<rparr>) (ticketStorage ex_state),
               transactionStorage := map_insert (tx_id tx') tx' (transactionStorage ex_state)\<rparr>
      \<and> (tx_id tx' \<notin> fst ` set (transactionStorage ex_state) \<longrightarrow>
           mset (transactionStorage (snd (buyTicket_p0 ?e ?p1 ex_state)))
             = add_mset (tx_id tx', tx') (mset (transactionStorage ex_state)))"
    by (simp only: if_True) blast
  from h2 i have id2: "tx_id tx' = ''c1''"
    by simp
  from h2 have "tx_id tx' \<notin> fst ` set (transactionStorage ex_state) \<longrightarrow>
      mset (transactionStorage (snd (buyTicket_p0 ?e ?p1 ex_state)))
        = add_mset (tx_id tx', tx') (mset (transactionStorage ex_state))"
    by blast
  with id2 n have g2: "mset (transactionStorage (snd (buyTicket_p0 ?e ?p1 ex_state)))
      = add_mset (''c1'', tx') (mset (transactionStorage ex_state))"
    by simp
  from h2 have "fst (buyTicket_p0 ?e ?p1 ex_state) = Ok tx'"
    by blast
  with g2 have 2: "\<exists>tx. fst (buyTicket_p0 ?e ?p1 ex_state) = Ok tx
      \<and> mset (transactionStorage (snd (buyTicket_p0 ?e ?p1 ex_state)))
          = add_mset (''c1'', tx) (mset (transactionStorage ex_state))"
    by blast
  from buyTicket_spec [OF k disjI2 [OF conjI [OF refl conjI [OF refl w]]] surjective_pairing,
      of ?e ?p2] b c
  have 3: "buyTicket_p0 ?e ?p2 ex_state
      = (Err (BadRequest ''Ticket has already been sold''), ex_state)"
    by (simp add: prod_eq_iff)
  from 1 2 3 show ?thesis
    by blast
qed

subsection \<open>The stores stay ordered\<close>

text \<open>The four stores are \<open>sorted_keys\<close> initially and after every call, in both files.\<close>

lemma sorted_keys_map_insert: "sorted_keys m \<Longrightarrow> sorted_keys (map_insert k v m)"
proof (induction m)
  case Nil
  show ?case by (simp add: sorted_keys_def)
next
  case (Cons kv m)
  obtain k' v' where kv: "kv = (k', v')" by (cases kv)
  from Cons.prems have tail: "sorted_keys m" and head: "\<forall>x \<in> fst ` set m. k' < x"
    by (auto simp: sorted_keys_def kv)
  show ?case
  proof (cases "k = k'")
    case True
    with Cons.prems show ?thesis
      by (simp add: sorted_keys_def kv)
  next
    case False
    show ?thesis
    proof (cases "k < k'")
      case True
      with Cons.prems show ?thesis
        by (auto simp: sorted_keys_def kv)
    next
      case greater: False
      with False have "k' < k" by simp
      with head have "\<forall>x \<in> fst ` set (map_insert k v m). k' < x"
        by (simp add: keys_map_insert)
      with Cons.IH [OF tail] False greater show ?thesis
        by (simp add: sorted_keys_def kv)
    qed
  qed
qed

lemma sorted_keys_distinct: "sorted_keys m \<Longrightarrow> distinct (map fst m)"
  by (simp add: sorted_keys_def strict_sorted_iff)

lemma sorted_keys_fold:
  "sorted_keys m \<Longrightarrow> sorted_keys (fold (\<lambda>j. map_insert (kf j) (vf j)) js m)"
  by (induction js arbitrary: m) (simp_all add: sorted_keys_map_insert)

lemma stores_sorted_init: "stores_sorted init_state"
  by (simp add: stores_sorted_def sorted_keys_def init_state_def)

lemma stores_sorted_canister:
  assumes "stores_sorted s" and "canister f e c s = (r, s')"
  shows "stores_sorted s'"
  using assms(2)
proof (cases rule: canister_cases)
  case same
  with assms(1) show ?thesis by simp
qed (use assms(1) in \<open>simp_all add: stores_sorted_def insert_transaction_def
      sorted_keys_map_insert sorted_keys_fold\<close>)

lemma stores_sorted_run: "stores_sorted s \<Longrightarrow> stores_sorted (run f cs s)"
proof (induction cs arbitrary: s)
  case Nil
  then show ?case by simp
next
  case (Cons ec cs)
  obtain e c where ec: "ec = (e, c)" by (cases ec)
  from Cons.prems have "stores_sorted (snd (canister f e c s))"
    by (rule stores_sorted_canister) (rule surjective_pairing)
  then show ?case
    unfolding ec by (simp add: Cons.IH)
qed

subsection \<open>Where the two files part\<close>

text \<open>
  A participant who asks for the transfer of a ticket that nobody holds: \<^verbatim>\<open>part_000\<close>
  ends in the \<open>TypeError\<close> of \<open>isProductOwner(ic.caller(), undefined)\<close>,
  \<^verbatim>\<open>src/src/index.ts\<close> in \<open>Forbidden\<close>.
\<close>

lemma transferTicket_p0_unsold:
  assumes "map_of (userStorage s) (ic_caller e) = Some u" and "u_role u \<noteq> ''organizer''"
    and "map_of (userStorage s) to = Some v" and "u_role v \<noteq> ''organizer''"
    and "ic_caller e \<noteq> to" and "\<not> isStringEmpty tid"
    and "map_of (ticketStorage s) tid = Some t" and "tk_participantId t = None"
  shows "transferTicket_p0 e tid to s = (Err typeError, s)"
  using assms by (simp add: transferTicket_p0_def store_simps)

lemma transferTicket_unsold:
  assumes "map_of (userStorage s) (ic_caller e) = Some u" and "u_role u = ''participant''"
    and "map_of (userStorage s) to = Some v" and "u_role v = ''participant''"
    and "ic_caller e \<noteq> to"
    and "map_of (ticketStorage s) tid = Some t" and "tk_participantId t = None"
  shows "transferTicket e tid to s = (Err (Forbidden ''Only ticket owner can transfer it''), s)"
  using assms by (simp add: transferTicket_def store_simps)

text \<open>
  Claim C3 says that a caller who is not the current holder fails with \<open>Forbidden\<close>.
  The participant \<open>P\<close> asks to transfer the unsold ticket \<open>t1\<close> to the participant
  \<open>Q\<close>: \<^verbatim>\<open>part_000\<close> answers \<open>InternalError\<close>, where \<^verbatim>\<open>src/src/index.ts\<close>
  answers \<open>Forbidden\<close>.
\<close>

theorem transferTicket_p0_unsold_ticket:
  "transferTicket_p0 (ex_env ''P'' ''x'') ''t1'' ''Q'' ex_state
     = (Err (InternalError ''TypeError''), ex_state)
   \<and> transferTicket (ex_env ''P'' ''x'') ''t1'' ''Q'' ex_state
     = (Err (Forbidden ''Only ticket owner can transfer it''), ex_state)"
  by code_simp

text \<open>\<^verbatim>\<open>part_000\<close> refuses a quantity or a price of 0, whoever calls.\<close>

lemma createTickets_p0_zero_quantity: "\<exists>x. createTickets_p0 e 0 p s = (Err x, s)"
  by (simp add: createTickets_p0_def split: option.splits)

lemma createTickets_p0_zero_price:
  "tp_price p = 0 \<Longrightarrow> \<exists>x. createTickets_p0 e q p s = (Err x, s)"
  by (simp add: createTickets_p0_def split: option.splits)

text \<open>
  Claim C5 says that \<open>createTickets\<close> fails when the quantity or the price is not
  greater than 0. In \<^verbatim>\<open>src/src/index.ts\<close> the organizer \<open>O\<close> asks for 0 tickets of
  price 100 for the event \<open>e1\<close> and gets \<open>Ok\<close> with no ticket, and asks for one ticket
  of price 0 and gets it; \<^verbatim>\<open>part_000\<close> refuses the first call.
\<close>

theorem createTickets_zero_quantity:
  "createTickets (ex_env ''O'' ''n'') 0
       \<lparr>tp_role = ''vip'', tp_price = 100, tp_eventId = ''e1''\<rparr> ex_state
     = (Ok [], ex_state)
   \<and> fst (createTickets (ex_env ''O'' ''n'') 1
       \<lparr>tp_role = ''vip'', tp_price = 0, tp_eventId = ''e1''\<rparr> ex_state)
     = Ok [\<lparr>tk_id = ''n1'', tk_role = ''vip'', tk_price = 0, tk_eventId = ''e1'',
            tk_participantId = None, tk_organizerId = ''O'', tk_createdAt = 100,
            tk_updatedAt = 100\<rparr>]
   \<and> createTickets_p0 (ex_env ''O'' ''n'') 0
       \<lparr>tp_role = ''vip'', tp_price = 100, tp_eventId = ''e1''\<rparr> ex_state
     = (Err (BadRequest ''Quantity, role, price and event ID cannot be empty''), ex_state)"
  by code_simp

text \<open>\<^verbatim>\<open>part_000\<close> refuses a date that is not after the current time, and a blank name or
  location, whoever calls.\<close>

lemma createEvent_p0_date_not_later:
  "ep_date p \<le> ic_time e \<Longrightarrow> \<exists>x. createEvent_p0 e p s = (Err x, s)"
  by (simp add: createEvent_p0_def split: option.splits)

lemma createEvent_p0_blank:
  "isStringEmpty (ep_name p) \<or> isStringEmpty (ep_location p) \<Longrightarrow>
     \<exists>x. createEvent_p0 e p s = (Err x, s)"
  by (auto simp: createEvent_p0_def split: option.splits)

text \<open>
  Claim C6 says that \<open>createEvent\<close> fails when the date equals the current time, or
  the name or the location is empty. In \<^verbatim>\<open>src/src/index.ts\<close> the organizer \<open>O\<close>
  creates, at time 100, an event dated 100, and one with empty name and location; both
  are stored. \<^verbatim>\<open>part_000\<close> refuses the first call.
\<close>

theorem createEvent_date_now:
  "createEvent (ex_env ''O'' ''f'')
       \<lparr>ep_name = ''Fair'', ep_date = 100, ep_location = ''Park''\<rparr> ex_state
     = (Ok \<lparr>ev_id = ''f1'', ev_name = ''Fair'', ev_date = 100, ev_location = ''Park'',
            ev_organizerId = ''O'', ev_createdAt = 100, ev_updatedAt = 100\<rparr>,
        ex_state\<lparr>eventStorage := eventStorage ex_state
          @ [(''f1'', \<lparr>ev_id = ''f1'', ev_name = ''Fair'', ev_date = 100,
                ev_location = ''Park'', ev_organizerId = ''O'', ev_createdAt = 100,
                ev_updatedAt = 100\<rparr>)]\<rparr>)
   \<and> ic_time (ex_env ''O'' ''f'') = 100
   \<and> fst (createEvent (ex_env ''O'' ''f'')
       \<lparr>ep_name = '''', ep_date = 500, ep_location = ''''\<rparr> ex_state)
     = Ok \<lparr>ev_id = ''f1'', ev_name = '''', ev_date = 500, ev_location = '''',
            ev_organizerId = ''O'', ev_createdAt = 100, ev_updatedAt = 100\<rparr>
   \<and> createEvent_p0 (ex_env ''O'' ''f'')
       \<lparr>ep_name = ''Fair'', ep_date = 100, ep_location = ''Park''\<rparr> ex_state
     = (Err (BadRequest ''Date must be a date in the future''), ex_state)"
  by code_simp

text \<open>
  Claim C7 says that \<open>createUser\<close> fails when the name is empty. The new caller \<open>R\<close>
  registers as a participant with the empty name: both files store the user.
\<close>

theorem createUser_empty_name:
  "createUser_p0 (ex_env ''R'' ''u'') \<lparr>up_name = '''', up_role = ''participant''\<rparr> ex_state
     = (Ok (ex_user ''R'' '''' ''participant''),
        ex_state\<lparr>userStorage := userStorage ex_state
          @ [(''R'', ex_user ''R'' '''' ''participant'')]\<rparr>)
   \<and> createUser (ex_env ''R'' ''u'') \<lparr>up_name = '''', up_role = ''participant''\<rparr> ex_state
     = (Ok (ex_user ''R'' '''' ''participant''),
        ex_state\<lparr>userStorage := userStorage ex_state
          @ [(''R'', ex_user ''R'' '''' ''participant'')]\<rparr>)
   \<and> isStringEmpty ''''"
  by code_simp

end
